theory Spec2Isabelle
  imports Main
begin

section \<open>Reports and the platform values they are made of\<close>

text \<open>
  A report is a plain JavaScript object that came out of \<^verbatim>\<open>JSON.parse\<close> or out of
  \<^verbatim>\<open>submitReport\<close>: a map from property names to JSON values. A property that is
  absent reads as \<^verbatim>\<open>undefined\<close>, which is \<open>None\<close> here. Numbers are kept as
  integers; the merge never computes with them, it only copies and compares them.
  Property values that are themselves objects or arrays are not modelled. On the values
  that are, \<^verbatim>\<open>===\<close> (used by \<^verbatim>\<open>find\<close>) and the test of \<^verbatim>\<open>Set.has\<close> (used on
  \<^verbatim>\<open>localIds\<close>) are both equality.
\<close>

datatype jsval = JStr string | JNum int | JBool bool | JNull

type_synonym report = "string \<rightharpoonup> jsval"

definition rid :: "report \<Rightarrow> jsval option" where
  "rid r = r ''id''"

definition timestamp :: "report \<Rightarrow> jsval option" where
  "timestamp r = r ''timestamp''"

definition status :: "report \<Rightarrow> jsval option" where
  "status r = r ''status''"

text \<open>
  \<^verbatim>\<open>Object.assign(target, source)\<close> copies every own property of the source onto the
  target and leaves the other properties of the target alone.
\<close>

definition object_assign :: "report \<Rightarrow> report \<Rightarrow> report" where
  "object_assign target source = target ++ source"

text \<open>
  \<^verbatim>\<open>new Date(a) > new Date(b)\<close>. The \<^verbatim>\<open>Date\<close> constructor belongs to the platform, so
  how it reads a value is a parameter \<open>date\<close>: the instant the value denotes, in
  milliseconds, or \<open>None\<close> for an invalid date, whose time value is \<^verbatim>\<open>NaN\<close>.
  \<^verbatim>\<open>new Date(undefined)\<close> is an invalid date. A comparison with \<^verbatim>\<open>NaN\<close> on either
  side is false.
\<close>

type_synonym date_ctor = "jsval \<Rightarrow> int option"

definition instant :: "date_ctor \<Rightarrow> jsval option \<Rightarrow> int option" where
  "instant date v = (case v of None \<Rightarrow> None | Some x \<Rightarrow> date x)"

definition newer :: "date_ctor \<Rightarrow> jsval option \<Rightarrow> jsval option \<Rightarrow> bool" where
  "newer date a b =
     (case instant date a of
        None \<Rightarrow> False
      | Some x \<Rightarrow> (case instant date b of None \<Rightarrow> False | Some y \<Rightarrow> y < x))"

text \<open>
  What a \<^verbatim>\<open>catch\<close> can receive: an \<^verbatim>\<open>Error\<close> or a \<^verbatim>\<open>TypeError\<close> with its
  message, or the event a failed script load rejects with, which has no \<^verbatim>\<open>message\<close>.
\<close>

datatype js_error = Error string | TypeError string | ErrorEvent

fun message :: "js_error \<Rightarrow> string option" where
  "message (Error m) = Some m"
| "message (TypeError m) = Some m"
| "message ErrorEvent = None"

text \<open>
  The outcome of one network exchange, given to the model as an argument: the request or
  the decoding of its reply throws, or the reply arrives with \<^verbatim>\<open>response.ok\<close> false, or
  it arrives in order with its content.
\<close>

datatype 'a reply = Thrown js_error | NotOk | Ok 'a

text \<open>Truthiness of a string-valued property: absent and empty are both falsy.\<close>

definition truthy :: "string option \<Rightarrow> bool" where
  "truthy v = (case v of None \<Rightarrow> False | Some x \<Rightarrow> x \<noteq> [])"

section \<open>The stored configuration\<close>

datatype sync_method = Firebase | GitHubGist | Custom | Simple | Unrecognised

text \<open>
  The stored configuration object. A property that is absent is \<open>None\<close>;
  \<open>cfg_method\<close> is the \<^verbatim>\<open>method\<close> property. \<open>Unrecognised\<close> stands for every
  value of \<^verbatim>\<open>syncMethod\<close> that no \<^verbatim>\<open>case\<close> label matches, \<^verbatim>\<open>null\<close> included.
\<close>

datatype firebase_options = FirebaseOptions string

record sync_config =
  cfg_method :: "sync_method option"
  cfg_endpoint :: "string option"
  cfg_key :: "string option"
  cfg_masterKey :: "string option"
  cfg_gistId :: "string option"
  cfg_githubToken :: "string option"
  cfg_apiEndpoint :: "string option"
  cfg_apiKey :: "string option"
  cfg_firebase :: "firebase_options option"

section \<open>What the module does to its surroundings\<close>

text \<open>
  The calls the module makes on the host application, on the page and on the remote
  store are recorded in order. \<^verbatim>\<open>console.error\<close> is recorded; the informational
  \<^verbatim>\<open>console.log\<close> lines are not. \<open>SaveReports\<close> carries the list that
  \<^verbatim>\<open>saveReports\<close> serialises, \<open>ShowSyncNotification\<close> the counter that the message
  interpolates. \<open>HttpUpload\<close> is the request of one of the three fetch-based uploads with
  the \<^verbatim>\<open>reports\<close> array of its body; \<open>FirebaseUpdate\<close> is the call of
  \<^verbatim>\<open>reportsRef.update\<close> with the object \<^verbatim>\<open>updates\<close> it is given, a map from property
  keys to reports.
\<close>

datatype effect =
    AddPoopMarker report
  | UpdateMarkerPopup "jsval option"
  | UpdateStats
  | SaveReports "report list"
  | ShowSyncNotification nat
  | ShowSyncError "string option"
  | ConsoleError js_error
  | HttpUpload sync_method "report list"
  | HttpDownload sync_method
  | CreateGist
  | FirebaseUpdate "string \<rightharpoonup> report"
  | FirebaseListen
  | SaveSyncConfig sync_config

section \<open>The state of a \<^verbatim>\<open>BackendSync\<close> object\<close>

text \<open>
  The fields of the class, the report array of the host application
  (\<^verbatim>\<open>this.poolerApp.poopReports\<close>), and the part of the page the module changes: the
  interval timers that are live, the next handle \<^verbatim>\<open>setInterval\<close> will hand out
  (handles are positive), the number of \<^verbatim>\<open>'value'\<close> listeners registered on the
  Firebase reference, whether the Firebase SDK is on the page, and the recorded calls.
\<close>

record engine =
  syncEnabled :: bool
  syncMethod :: sync_method
  syncConfig :: sync_config
  syncInterval :: "nat option"
  lastSyncTime :: int
  syncEndpoint :: "string option"
  syncKey :: "string option"
  gistId :: "string option"
  githubToken :: "string option"
  apiEndpoint :: "string option"
  apiKey :: "string option"
  reportsRef :: bool
  poopReports :: "report list"
  liveTimers :: "nat list"
  nextTimer :: nat
  valueListeners :: nat
  firebaseLoaded :: bool
  effects :: "effect list"

definition emit :: "effect list \<Rightarrow> engine \<Rightarrow> engine" where
  "emit es s = s\<lparr>effects := effects s @ es\<rparr>"

section \<open>\<^verbatim>\<open>mergeReports\<close>\<close>

text \<open>
  \<^verbatim>\<open>localReports.find(r => r.id === remoteReport.id)\<close> returns the first element with
  that id, and \<^verbatim>\<open>Object.assign\<close> then changes that object where it sits in the array.
  \<open>find_first\<close> is the lookup, \<open>assign_first\<close> the change at the position found.
\<close>

fun find_first :: "('a \<Rightarrow> bool) \<Rightarrow> 'a list \<Rightarrow> 'a option" where
  "find_first P [] = None"
| "find_first P (x # xs) = (if P x then Some x else find_first P xs)"

fun assign_first :: "('a \<Rightarrow> bool) \<Rightarrow> ('a \<Rightarrow> 'a) \<Rightarrow> 'a list \<Rightarrow> 'a list" where
  "assign_first P f [] = []"
| "assign_first P f (x # xs) = (if P x then f x # xs else x # assign_first P f xs)"

text \<open>
  The body of the \<^verbatim>\<open>forEach\<close> callback, on the state and the local counter
  \<^verbatim>\<open>newReports\<close>. \<open>localIds\<close> is the set built once before the loop. When
  \<^verbatim>\<open>find\<close> returns \<^verbatim>\<open>undefined\<close>, reading \<^verbatim>\<open>localReport.timestamp\<close> throws a
  \<^verbatim>\<open>TypeError\<close>, which leaves the loop with the state reached so far. A pushed
  record is the remote object itself; the loop writes to objects that were local before
  it began, never to a pushed one, so lists of values describe the array faithfully.
\<close>

definition merge_one ::
  "date_ctor \<Rightarrow> jsval option set \<Rightarrow> report \<Rightarrow> engine \<times> nat \<Rightarrow> js_error \<times> engine + engine \<times> nat"
where
  "merge_one date localIds remoteReport sn =
     (case sn of (s, newReports) \<Rightarrow>
        if rid remoteReport \<notin> localIds then
          Inr (emit (if status remoteReport = Some (JStr ''active'')
                     then [AddPoopMarker remoteReport] else [])
                 (s\<lparr>poopReports := poopReports s @ [remoteReport]\<rparr>),
               newReports + 1)
        else
          (case find_first (\<lambda>r. rid r = rid remoteReport) (poopReports s) of
             None \<Rightarrow> Inl (TypeError ''localReport is undefined'', s)
           | Some localReport \<Rightarrow>
               if newer date (timestamp remoteReport) (timestamp localReport) then
                 Inr (emit [UpdateMarkerPopup (rid remoteReport)]
                        (s\<lparr>poopReports :=
                             assign_first (\<lambda>r. rid r = rid remoteReport)
                               (\<lambda>l. object_assign l remoteReport) (poopReports s)\<rparr>),
                      newReports)
               else Inr (s, newReports)))"

fun merge_each ::
  "date_ctor \<Rightarrow> jsval option set \<Rightarrow> report list \<Rightarrow> engine \<times> nat \<Rightarrow> js_error \<times> engine + engine \<times> nat"
where
  "merge_each date localIds [] sn = Inr sn"
| "merge_each date localIds (r # rs) sn =
     (case merge_one date localIds r sn of
        Inl e \<Rightarrow> Inl e
      | Inr sn' \<Rightarrow> merge_each date localIds rs sn')"

text \<open>
  The loop of \<^verbatim>\<open>mergeReports\<close>: the state after the \<^verbatim>\<open>forEach\<close> together with the
  final value of \<^verbatim>\<open>newReports\<close>.
\<close>

definition merge_loop ::
  "date_ctor \<Rightarrow> report list \<Rightarrow> engine \<Rightarrow> js_error \<times> engine + engine \<times> nat"
where
  "merge_loop date remoteReports s =
     merge_each date (set (map rid (poopReports s))) remoteReports (s, 0)"

definition mergeReports ::
  "date_ctor \<Rightarrow> report list \<Rightarrow> engine \<Rightarrow> js_error \<times> engine + engine"
where
  "mergeReports date remoteReports s =
     (case merge_loop date remoteReports s of
        Inl e \<Rightarrow> Inl e
      | Inr (s', newReports) \<Rightarrow>
          if newReports > 0 then
            Inr (emit [UpdateStats, SaveReports (poopReports s'), ShowSyncNotification newReports] s')
          else Inr s')"

text \<open>
  \<^verbatim>\<open>handleReportUpdate\<close>, the Firebase listener: \<open>data\<close> is \<open>None\<close> for a falsy
  snapshot, otherwise the values of the snapshot object.
\<close>

definition handleReportUpdate ::
  "date_ctor \<Rightarrow> report list option \<Rightarrow> engine \<Rightarrow> js_error \<times> engine + engine"
where
  "handleReportUpdate date data s =
     (case data of None \<Rightarrow> Inr s | Some reports \<Rightarrow> mergeReports date reports s)"

section \<open>Configuration\<close>

definition loadSyncConfig :: "sync_config \<Rightarrow> engine \<Rightarrow> engine" where
  "loadSyncConfig config s =
     s\<lparr>syncMethod := (case cfg_method config of None \<Rightarrow> Unrecognised | Some m \<Rightarrow> m),
       syncConfig := config\<rparr>"

text \<open>
  \<^verbatim>\<open>{ method: method, ...config }\<close>: a \<^verbatim>\<open>method\<close> property of \<open>config\<close> itself comes
  later in the literal and wins.
\<close>

definition saveSyncConfig :: "sync_method \<Rightarrow> sync_config \<Rightarrow> engine \<Rightarrow> engine" where
  "saveSyncConfig method config s =
     (let syncConfig' =
            config\<lparr>cfg_method := Some (case cfg_method config of None \<Rightarrow> method | Some m \<Rightarrow> m)\<rparr>
      in emit [SaveSyncConfig syncConfig'] (s\<lparr>syncMethod := method, syncConfig := syncConfig'\<rparr>))"

section \<open>The adapters\<close>

text \<open>
  Every \<^verbatim>\<open>async\<close> method is modelled as running to its end in one step; the outcome
  of its network exchange is an argument. A method that throws returns \<open>Inl\<close> with the
  error and the state at the throw. URLs and headers are not modelled.
\<close>

definition initSimpleSync :: "engine \<Rightarrow> js_error \<times> engine + engine" where
  "initSimpleSync s =
     (let s1 = s\<lparr>syncEndpoint :=
                   (if truthy (cfg_endpoint (syncConfig s)) then cfg_endpoint (syncConfig s)
                    else Some ''https://api.jsonbin.io/v3/b/''),
                 syncKey := cfg_key (syncConfig s)\<rparr>
      in if \<not> truthy (syncKey s1)
         then Inl (Error ''JSONBin API key required. Get one free at jsonbin.io'', s1)
         else Inr s1)"

definition createGist :: "string reply \<Rightarrow> engine \<Rightarrow> js_error \<times> engine + engine" where
  "createGist resp s =
     (let s1 = emit [CreateGist] s in
      case resp of
        Thrown e \<Rightarrow> Inl (e, s1)
      | NotOk \<Rightarrow> Inl (Error ''Failed to create GitHub Gist'', s1)
      | Ok new_id \<Rightarrow>
          (let s2 = s1\<lparr>gistId := Some new_id\<rparr>;
               s3 = s2\<lparr>syncConfig := (syncConfig s2)\<lparr>cfg_gistId := gistId s2\<rparr>\<rparr>
           in Inr (saveSyncConfig GitHubGist (syncConfig s3) s3)))"

definition initGitHubGistSync :: "string reply \<Rightarrow> engine \<Rightarrow> js_error \<times> engine + engine" where
  "initGitHubGistSync resp s =
     (let s1 = s\<lparr>gistId := cfg_gistId (syncConfig s),
                 githubToken := cfg_githubToken (syncConfig s)\<rparr>
      in if \<not> truthy (gistId s1) then
           (if truthy (githubToken s1) then createGist resp s1
            else Inl (Error ''GitHub token required to create sync storage'', s1))
         else Inr s1)"

text \<open>
  \<open>sdk\<close> is the outcome of \<^verbatim>\<open>loadFirebaseSDK\<close> when the SDK is not yet on the page:
  \<open>None\<close> when both scripts load. The calls into the SDK itself are taken to succeed.
\<close>

definition initFirebaseSync :: "js_error option \<Rightarrow> engine \<Rightarrow> js_error \<times> engine + engine" where
  "initFirebaseSync sdk s =
     (case (if firebaseLoaded s then Inr s
            else (case sdk of Some e \<Rightarrow> Inl (e, s) | None \<Rightarrow> Inr (s\<lparr>firebaseLoaded := True\<rparr>))) of
        Inl e \<Rightarrow> Inl e
      | Inr s1 \<Rightarrow>
          (case cfg_firebase (syncConfig s1) of
             None \<Rightarrow> Inl (Error ''Firebase configuration required'', s1)
           | Some firebaseConfig \<Rightarrow>
               Inr (emit [FirebaseListen]
                      (s1\<lparr>reportsRef := True, valueListeners := valueListeners s1 + 1\<rparr>))))"

definition initCustomSync :: "engine \<Rightarrow> js_error \<times> engine + engine" where
  "initCustomSync s =
     (let s1 = s\<lparr>apiEndpoint := cfg_apiEndpoint (syncConfig s),
                 apiKey := cfg_apiKey (syncConfig s)\<rparr>
      in if \<not> truthy (apiEndpoint s1) then Inl (Error ''Custom API endpoint required'', s1)
         else Inr s1)"

definition uploadToJSONBin :: "report list \<Rightarrow> unit reply \<Rightarrow> engine \<Rightarrow> js_error \<times> engine + engine" where
  "uploadToJSONBin reports resp s =
     (let s1 = emit [HttpUpload Simple reports] s in
      case resp of
        Thrown e \<Rightarrow> Inl (e, s1)
      | NotOk \<Rightarrow> Inl (Error ''Failed to upload to JSONBin'', s1)
      | Ok u \<Rightarrow> Inr s1)"

definition uploadToGist :: "report list \<Rightarrow> unit reply \<Rightarrow> engine \<Rightarrow> js_error \<times> engine + engine" where
  "uploadToGist reports resp s =
     (let s1 = emit [HttpUpload GitHubGist reports] s in
      case resp of
        Thrown e \<Rightarrow> Inl (e, s1)
      | NotOk \<Rightarrow> Inl (Error ''Failed to upload to Gist'', s1)
      | Ok u \<Rightarrow> Inr s1)"

definition uploadToCustomAPI :: "report list \<Rightarrow> unit reply \<Rightarrow> engine \<Rightarrow> js_error \<times> engine + engine" where
  "uploadToCustomAPI reports resp s =
     (let s1 = emit [HttpUpload Custom reports] s in
      case resp of
        Thrown e \<Rightarrow> Inl (e, s1)
      | NotOk \<Rightarrow> Inl (Error ''Failed to upload to custom API'', s1)
      | Ok u \<Rightarrow> Inr s1)"

text \<open>
  \<^verbatim>\<open>uploadToFirebase\<close> builds one object, \<^verbatim>\<open>updates[report.id] = report\<close> for each
  report in turn, so a later report replaces an earlier one under the same key. A
  property key is a string; how the platform turns the value of \<^verbatim>\<open>report.id\<close> into one
  is a parameter \<open>key\<close>. \<open>assign_updates\<close> is the \<^verbatim>\<open>forEach\<close> over the reports.
\<close>

type_synonym key_of = "jsval option \<Rightarrow> string"

fun assign_updates :: "key_of \<Rightarrow> report list \<Rightarrow> (string \<rightharpoonup> report) \<Rightarrow> (string \<rightharpoonup> report)" where
  "assign_updates key [] updates = updates"
| "assign_updates key (report # reports) updates =
     assign_updates key reports (updates(key (rid report) \<mapsto> report))"

text \<open>
  The promise of \<^verbatim>\<open>update\<close> rejects (\<open>Thrown\<close>) or resolves (any other reply). Calling
  \<^verbatim>\<open>update\<close> on a reference that was never set throws.
\<close>

definition uploadToFirebase ::
  "key_of \<Rightarrow> report list \<Rightarrow> unit reply \<Rightarrow> engine \<Rightarrow> js_error \<times> engine + engine"
where
  "uploadToFirebase key reports resp s =
     (let updates = assign_updates key reports Map.empty in
      if \<not> reportsRef s then Inl (TypeError ''this.reportsRef is undefined'', s)
      else
        (let s1 = emit [FirebaseUpdate updates] s in
         case resp of Thrown e \<Rightarrow> Inl (e, s1) | NotOk \<Rightarrow> Inr s1 | Ok u \<Rightarrow> Inr s1))"

text \<open>
  The downloads. The content of a reply in order is the \<^verbatim>\<open>reports\<close> property of the
  document, \<open>None\<close> when it is missing or falsy, in which case \<^verbatim>\<open>|| []\<close> applies.
\<close>

definition downloadFromJSONBin ::
  "report list option reply \<Rightarrow> engine \<Rightarrow> js_error \<times> engine + report list \<times> engine"
where
  "downloadFromJSONBin resp s =
     (let s1 = emit [HttpDownload Simple] s in
      case resp of
        Thrown e \<Rightarrow> Inl (e, s1)
      | NotOk \<Rightarrow> Inl (Error ''Failed to download from JSONBin'', s1)
      | Ok reports \<Rightarrow> Inr (case reports of None \<Rightarrow> [] | Some rs \<Rightarrow> rs, s1))"

definition downloadFromGist ::
  "report list option reply \<Rightarrow> engine \<Rightarrow> js_error \<times> engine + report list \<times> engine"
where
  "downloadFromGist resp s =
     (let s1 = emit [HttpDownload GitHubGist] s in
      case resp of
        Thrown e \<Rightarrow> Inl (e, s1)
      | NotOk \<Rightarrow> Inl (Error ''Failed to download from Gist'', s1)
      | Ok reports \<Rightarrow> Inr (case reports of None \<Rightarrow> [] | Some rs \<Rightarrow> rs, s1))"

definition downloadFromCustomAPI ::
  "report list option reply \<Rightarrow> engine \<Rightarrow> js_error \<times> engine + report list \<times> engine"
where
  "downloadFromCustomAPI resp s =
     (let s1 = emit [HttpDownload Custom] s in
      case resp of
        Thrown e \<Rightarrow> Inl (e, s1)
      | NotOk \<Rightarrow> Inl (Error ''Failed to download from custom API'', s1)
      | Ok reports \<Rightarrow> Inr (case reports of None \<Rightarrow> [] | Some rs \<Rightarrow> rs, s1))"

section \<open>Upload and download\<close>

text \<open>
  \<^verbatim>\<open>uploadReports\<close>; \<open>now\<close> is \<^verbatim>\<open>Date.now()\<close>. Everything after the guard sits in the
  \<^verbatim>\<open>try\<close>, so the method itself never throws.
\<close>

definition uploadReports :: "key_of \<Rightarrow> int \<Rightarrow> unit reply \<Rightarrow> engine \<Rightarrow> engine" where
  "uploadReports key now resp s =
     (if \<not> syncEnabled s then s
      else
        (let reports = poopReports s in
         case (case syncMethod s of
                 Simple \<Rightarrow> uploadToJSONBin reports resp s
               | GitHubGist \<Rightarrow> uploadToGist reports resp s
               | Firebase \<Rightarrow> uploadToFirebase key reports resp s
               | Custom \<Rightarrow> uploadToCustomAPI reports resp s
               | Unrecognised \<Rightarrow> Inr s) of
           Inl (error, s1) \<Rightarrow> emit [ConsoleError error] s1
         | Inr s1 \<Rightarrow> s1\<lparr>lastSyncTime := now\<rparr>))"

text \<open>
  \<^verbatim>\<open>downloadReports\<close>. For Firebase the method returns from inside the \<^verbatim>\<open>switch\<close>.
  When no label matches, \<^verbatim>\<open>reports\<close> stays \<^verbatim>\<open>undefined\<close>; the merge is skipped,
  \<^verbatim>\<open>lastSyncTime\<close> is set, and reading \<^verbatim>\<open>reports.length\<close> for the log line throws into
  the \<^verbatim>\<open>catch\<close>.
\<close>

definition downloadReports :: "date_ctor \<Rightarrow> int \<Rightarrow> report list option reply \<Rightarrow> engine \<Rightarrow> engine" where
  "downloadReports date now resp s =
     (if \<not> syncEnabled s then s
      else if syncMethod s = Firebase then s
      else
        (case (case syncMethod s of
                 Simple \<Rightarrow> map_sum id (map_prod Some id) (downloadFromJSONBin resp s)
               | GitHubGist \<Rightarrow> map_sum id (map_prod Some id) (downloadFromGist resp s)
               | Custom \<Rightarrow> map_sum id (map_prod Some id) (downloadFromCustomAPI resp s)
               | _ \<Rightarrow> Inr (None, s)) of
           Inl (error, s1) \<Rightarrow> emit [ConsoleError error] s1
         | Inr (reports, s1) \<Rightarrow>
             (case (case reports of
                      None \<Rightarrow> Inr s1
                    | Some rs \<Rightarrow> if length rs > 0 then mergeReports date rs s1 else Inr s1) of
                Inl (error, s2) \<Rightarrow> emit [ConsoleError error] s2
              | Inr s2 \<Rightarrow>
                  (let s3 = s2\<lparr>lastSyncTime := now\<rparr> in
                   case reports of
                     None \<Rightarrow> emit [ConsoleError (TypeError ''reports is undefined'')] s3
                   | Some rs \<Rightarrow> s3))))"

section \<open>Timers and the life cycle\<close>

definition clearInterval :: "nat \<Rightarrow> engine \<Rightarrow> engine" where
  "clearInterval h s = s\<lparr>liveTimers := removeAll h (liveTimers s)\<rparr>"

text \<open>
  \<^verbatim>\<open>startAutoSync\<close>. A handle is truthy when it is not zero. The first download is
  started before \<^verbatim>\<open>setInterval\<close> is called and is modelled as complete by then.
\<close>

definition startAutoSync :: "date_ctor \<Rightarrow> int \<Rightarrow> report list option reply \<Rightarrow> engine \<Rightarrow> engine" where
  "startAutoSync date now resp s =
     (let s1 = (case syncInterval s of
                  None \<Rightarrow> s
                | Some h \<Rightarrow> if h \<noteq> 0 then clearInterval h s else s);
          s2 = downloadReports date now resp s1
      in s2\<lparr>syncInterval := Some (nextTimer s2),
            liveTimers := liveTimers s2 @ [nextTimer s2],
            nextTimer := nextTimer s2 + 1\<rparr>)"

text \<open>One firing of the interval \<open>h\<close>: the callback runs only while the timer is live.\<close>

definition timer_tick ::
  "nat \<Rightarrow> date_ctor \<Rightarrow> int \<Rightarrow> report list option reply \<Rightarrow> engine \<Rightarrow> engine"
where
  "timer_tick h date now resp s =
     (if h \<in> set (liveTimers s) then downloadReports date now resp s else s)"

definition stopAutoSync :: "engine \<Rightarrow> engine" where
  "stopAutoSync s =
     (case syncInterval s of
        None \<Rightarrow> s
      | Some h \<Rightarrow> if h \<noteq> 0 then (clearInterval h s)\<lparr>syncInterval := None\<rparr> else s)"

text \<open>
  \<^verbatim>\<open>initializeSync\<close> returns its boolean and the state. \<open>sdk\<close> and \<open>gist\<close> are the
  outcomes of loading the Firebase SDK and of creating the gist, \<open>resp\<close> that of the
  first download.
\<close>

definition initializeSync ::
  "js_error option \<Rightarrow> string reply \<Rightarrow> date_ctor \<Rightarrow> int \<Rightarrow> report list option reply \<Rightarrow>
   engine \<Rightarrow> bool \<times> engine"
where
  "initializeSync sdk gist date now resp s =
     (case (case syncMethod s of
              Firebase \<Rightarrow> Some (initFirebaseSync sdk s)
            | GitHubGist \<Rightarrow> Some (initGitHubGistSync gist s)
            | Custom \<Rightarrow> Some (initCustomSync s)
            | Simple \<Rightarrow> Some (initSimpleSync s)
            | Unrecognised \<Rightarrow> None) of
        None \<Rightarrow> (False, s)
      | Some (Inl (error, s1)) \<Rightarrow> (False, emit [ConsoleError error, ShowSyncError (message error)] s1)
      | Some (Inr s1) \<Rightarrow> (True, startAutoSync date now resp (s1\<lparr>syncEnabled := True\<rparr>)))"

text \<open>
  \<^verbatim>\<open>syncNewReport\<close>: \<^verbatim>\<open>uploadReports\<close> catches its own errors, so the \<^verbatim>\<open>catch\<close>
  here is never entered. The argument is used for the log line only.
\<close>

definition syncNewReport ::
  "key_of \<Rightarrow> report \<Rightarrow> int \<Rightarrow> unit reply \<Rightarrow> engine \<Rightarrow> engine"
where
  "syncNewReport key report now resp s =
     (if \<not> syncEnabled s then s else uploadReports key now resp s)"

text \<open>
  The constructor: the fields as it sets them, on a page with no timer, no listener and no Firebase SDK,
  then the stored configuration, then \<^verbatim>\<open>initializeSync\<close> when a method is configured.
  \<open>localReports\<close> is the report array of the host application.
\<close>

definition no_config :: sync_config where
  "no_config = \<lparr>cfg_method = None, cfg_endpoint = None, cfg_key = None, cfg_masterKey = None,
     cfg_gistId = None, cfg_githubToken = None, cfg_apiEndpoint = None, cfg_apiKey = None,
     cfg_firebase = None\<rparr>"

definition fresh :: "report list \<Rightarrow> engine" where
  "fresh localReports =
     \<lparr>syncEnabled = False, syncMethod = Unrecognised, syncConfig = no_config,
      syncInterval = None, lastSyncTime = 0, syncEndpoint = None, syncKey = None,
      gistId = None, githubToken = None, apiEndpoint = None, apiKey = None,
      reportsRef = False, poopReports = localReports, liveTimers = [], nextTimer = 1,
      valueListeners = 0, firebaseLoaded = False, effects = []\<rparr>"

definition BackendSync ::
  "report list \<Rightarrow> sync_config \<Rightarrow> js_error option \<Rightarrow> string reply \<Rightarrow> date_ctor \<Rightarrow> int \<Rightarrow>
   report list option reply \<Rightarrow> engine"
where
  "BackendSync localReports stored sdk gist date now resp =
     (let s = loadSyncConfig stored (fresh localReports) in
      if syncMethod s \<noteq> Unrecognised then snd (initializeSync sdk gist date now resp s) else s)"


section \<open>Auxiliary notions for the proofs\<close>

text \<open>
  What one remote report does to the array when its id is known locally, what one
  iteration does to the array, the array after the whole loop, and its two parts: the
  local records after their updates, and the remote records that were pushed.
\<close>

definition upd_existing :: "date_ctor \<Rightarrow> report \<Rightarrow> report list \<Rightarrow> report list" where
  "upd_existing date r xs =
     (case find_first (\<lambda>l. rid l = rid r) xs of
        None \<Rightarrow> xs
      | Some l \<Rightarrow>
          if newer date (timestamp r) (timestamp l)
          then assign_first (\<lambda>l. rid l = rid r) (\<lambda>l. object_assign l r) xs
          else xs)"

definition merge_step ::
  "date_ctor \<Rightarrow> jsval option set \<Rightarrow> report list \<Rightarrow> report \<Rightarrow> report list"
where
  "merge_step date ids xs r = (if rid r \<notin> ids then xs @ [r] else upd_existing date r xs)"

definition merged_list ::
  "date_ctor \<Rightarrow> jsval option set \<Rightarrow> report list \<Rightarrow> report list \<Rightarrow> report list"
where
  "merged_list date ids rs xs = foldl (merge_step date ids) xs rs"

definition updated_locals ::
  "date_ctor \<Rightarrow> jsval option set \<Rightarrow> report list \<Rightarrow> report list \<Rightarrow> report list"
where
  "updated_locals date ids rs xs =
     foldl (\<lambda>xs r. if rid r \<in> ids then upd_existing date r xs else xs) xs rs"

definition new_remotes :: "jsval option set \<Rightarrow> report list \<Rightarrow> report list" where
  "new_remotes ids rs = filter (\<lambda>r. rid r \<notin> ids) rs"

text \<open>What a single local record becomes under one remote report with its id.\<close>

definition overwrite :: "date_ctor \<Rightarrow> report \<Rightarrow> report \<Rightarrow> report" where
  "overwrite date l r =
     (if rid l = rid r \<and> newer date (timestamp r) (timestamp l) then object_assign l r else l)"

fun marker_effect :: "effect \<Rightarrow> bool" where
  "marker_effect (AddPoopMarker r) = True"
| "marker_effect (UpdateMarkerPopup i) = True"
| "marker_effect e = False"

fun is_save :: "effect \<Rightarrow> bool" where
  "is_save (SaveReports rs) = True"
| "is_save e = False"

fun is_notification :: "effect \<Rightarrow> bool" where
  "is_notification (ShowSyncNotification n) = True"
| "is_notification e = False"

fun is_ui_error :: "effect \<Rightarrow> bool" where
  "is_ui_error (ShowSyncError m) = True"
| "is_ui_error e = False"

text \<open>
  What the uploads recorded in a trace have sent: the \<^verbatim>\<open>reports\<close> arrays of the
  fetch-based uploads, and the objects given to the Firebase reference. Creating the
  gist stores a document with no reports; it is provisioning, not an upload of reports.
\<close>

fun http_upload :: "effect \<Rightarrow> report list option" where
  "http_upload (HttpUpload m rs) = Some rs"
| "http_upload e = None"

definition http_uploads :: "effect list \<Rightarrow> report list list" where
  "http_uploads es = List.map_filter http_upload es"

fun firebase_update :: "effect \<Rightarrow> (string \<rightharpoonup> report) option" where
  "firebase_update (FirebaseUpdate updates) = Some updates"
| "firebase_update e = None"

definition firebase_updates :: "effect list \<Rightarrow> (string \<rightharpoonup> report) list" where
  "firebase_updates es = List.map_filter firebase_update es"

text \<open>
  The module keeps at most the one interval whose handle it remembers, and handles are
  positive.
\<close>

definition timer_inv :: "engine \<Rightarrow> bool" where
  "timer_inv s \<longleftrightarrow>
     liveTimers s = (case syncInterval s of None \<Rightarrow> [] | Some h \<Rightarrow> [h]) \<and>
     (case syncInterval s of None \<Rightarrow> True | Some h \<Rightarrow> 0 < h) \<and> 0 < nextTimer s"

text \<open>
  Two states agree on the switch, the method, the timer, the page's timers and listeners
  and the Firebase reference, and the second shows the user no error the first did not.
\<close>

definition same_control :: "engine \<Rightarrow> engine \<Rightarrow> bool" where
  "same_control s s' \<longleftrightarrow>
     syncEnabled s' = syncEnabled s \<and> syncMethod s' = syncMethod s \<and>
     syncInterval s' = syncInterval s \<and> liveTimers s' = liveTimers s \<and>
     nextTimer s' = nextTimer s \<and> valueListeners s' = valueListeners s \<and>
     reportsRef s' = reportsRef s \<and>
     filter is_ui_error (effects s') = filter is_ui_error (effects s)"

text \<open>The state a call leaves behind, whether it returned or threw.\<close>

fun state_of :: "js_error \<times> engine + engine \<Rightarrow> engine" where
  "state_of (Inl (e, s)) = s"
| "state_of (Inr s) = s"

subsection \<open>Concrete data for the examples\<close>

text \<open>
  A \<^verbatim>\<open>Date\<close> constructor cut down to numeric timestamps, which it reads as
  milliseconds since the epoch, and a report with the three properties the merge looks at.
\<close>

definition millis_date :: date_ctor where
  "millis_date v = (case v of JNum n \<Rightarrow> Some n | _ \<Rightarrow> None)"

definition mk_report :: "string \<Rightarrow> int \<Rightarrow> string \<Rightarrow> report" where
  "mk_report i t st = [''id'' \<mapsto> JStr i, ''timestamp'' \<mapsto> JNum t, ''status'' \<mapsto> JStr st]"

text \<open>
  A local report after \<^verbatim>\<open>markCleaned\<close>, which added \<^verbatim>\<open>cleanedAt\<close>, and a remote copy
  of the same report with a later timestamp and no such property.
\<close>

definition cleaned_local :: report where
  "cleaned_local = (mk_report ''a'' 1 ''cleaned'')(''cleanedAt'' \<mapsto> JNum 5)"

definition later_remote :: report where
  "later_remote = mk_report ''a'' 2 ''active''"

text \<open>Two remote records that share an id and differ in their timestamps.\<close>

definition first_copy :: report where
  "first_copy = mk_report ''a'' 1 ''active''"

definition second_copy :: report where
  "second_copy = mk_report ''a'' 2 ''active''"

text \<open>
  Stored configurations, and the engines the constructor makes of them: one on Firebase,
  one on a custom backend, one on a gist that already exists. The first download of the
  last two brings the empty array.
\<close>

definition firebase_config :: sync_config where
  "firebase_config =
     no_config\<lparr>cfg_method := Some Firebase, cfg_firebase := Some (FirebaseOptions ''pooler'')\<rparr>"

definition custom_config :: sync_config where
  "custom_config =
     no_config\<lparr>cfg_method := Some Custom, cfg_apiEndpoint := Some ''https://example.org/api''\<rparr>"

definition gist_config :: sync_config where
  "gist_config = no_config\<lparr>cfg_method := Some GitHubGist, cfg_gistId := Some ''g1''\<rparr>"

definition firebase_engine :: engine where
  "firebase_engine = BackendSync [] firebase_config None NotOk millis_date 0 NotOk"

definition custom_engine :: engine where
  "custom_engine = BackendSync [] custom_config None NotOk millis_date 0 (Ok (Some []))"

definition gist_engine :: engine where
  "gist_engine = BackendSync [first_copy] gist_config None NotOk millis_date 0 (Ok (Some []))"

text \<open>
  A key conversion cut down to string ids, which are their own keys, and two Firebase
  engines: one whose local array holds an id twice, as the merge of \<open>first_copy\<close> and
  \<open>second_copy\<close> into an empty array leaves it, and one whose local ids differ.
\<close>

definition string_key :: key_of where
  "string_key v = (case v of Some (JStr x) \<Rightarrow> x | _ \<Rightarrow> ''undefined'')"

definition repeated_id_engine :: engine where
  "repeated_id_engine =
     BackendSync [first_copy, second_copy] firebase_config None NotOk millis_date 0 NotOk"

definition two_ids_engine :: engine where
  "two_ids_engine =
     BackendSync [mk_report ''b'' 1 ''active'', first_copy] firebase_config None NotOk
       millis_date 0 NotOk"

text \<open>
  What \<^verbatim>\<open>setupGitHubSync\<close> does to a running engine before it calls
  \<^verbatim>\<open>initializeSync\<close>: it saves a configuration that holds the token alone.
\<close>

definition reconfigured_engine :: engine where
  "reconfigured_engine =
     saveSyncConfig GitHubGist (no_config\<lparr>cfg_githubToken := Some ''t''\<rparr>) custom_engine"

section \<open>Facts about the merge loop\<close>

lemma find_first_None_iff: "find_first P xs = None \<longleftrightarrow> (\<forall>x\<in>set xs. \<not> P x)"
  by (induction xs) auto

lemma find_first_Some: "find_first P xs = Some x \<Longrightarrow> x \<in> set xs \<and> P x"
  by (induction xs) (auto split: if_splits)

lemma length_assign_first [simp]: "length (assign_first P f xs) = length xs"
  by (induction xs) auto

lemma map_assign_first:
  "(\<And>x. P x \<Longrightarrow> g (f x) = g x) \<Longrightarrow> map g (assign_first P f xs) = map g xs"
  by (induction xs) auto

lemma assign_first_append:
  "\<exists>x\<in>set xs. P x \<Longrightarrow> assign_first P f (xs @ ys) = assign_first P f xs @ ys"
  by (induction xs) auto

lemma find_first_append:
  "\<exists>x\<in>set xs. P x \<Longrightarrow> find_first P (xs @ ys) = find_first P xs"
  by (induction xs) auto

lemma rid_object_assign: "rid l = rid r \<Longrightarrow> rid (object_assign l r) = rid r"
  by (simp add: rid_def object_assign_def map_add_def split: option.splits)

lemma map_rid_upd_existing [simp]: "map rid (upd_existing date r xs) = map rid xs"
  by (auto simp: upd_existing_def rid_object_assign intro!: map_assign_first split: option.splits)

lemma length_upd_existing [simp]: "length (upd_existing date r xs) = length xs"
  using map_rid_upd_existing [of date r xs] by (metis length_map)

lemma upd_existing_append:
  "rid r \<in> rid ` set xs \<Longrightarrow> upd_existing date r (xs @ ys) = upd_existing date r xs @ ys"
proof -
  assume "rid r \<in> rid ` set xs"
  then have ex: "\<exists>x\<in>set xs. rid x = rid r" by auto
  show ?thesis
    unfolding upd_existing_def
    by (simp add: find_first_append [OF ex] assign_first_append [OF ex] split: option.splits)
qed

lemma map_rid_updated_locals [simp]: "map rid (updated_locals date ids rs xs) = map rid xs"
  unfolding updated_locals_def by (induction rs arbitrary: xs) auto

lemma length_updated_locals [simp]: "length (updated_locals date ids rs xs) = length xs"
  using map_rid_updated_locals [of date ids rs xs] by (metis length_map)

lemma merged_list_split:
  "ids \<subseteq> rid ` set xs \<Longrightarrow>
   merged_list date ids rs xs = updated_locals date ids rs xs @ new_remotes ids rs"
proof (induction rs rule: rev_induct)
  case Nil
  show ?case by (simp add: merged_list_def updated_locals_def new_remotes_def)
next
  case (snoc r rs)
  have eq: "merged_list date ids rs xs = updated_locals date ids rs xs @ new_remotes ids rs"
    using snoc by simp
  have img: "rid ` set (updated_locals date ids rs xs) = rid ` set xs"
    using map_rid_updated_locals [of date ids rs xs] by (metis set_map)
  show ?case
  proof (cases "rid r \<in> ids")
    case True
    then have "rid r \<in> rid ` set (updated_locals date ids rs xs)"
      using snoc.prems img by auto
    then show ?thesis
      using True eq
      by (simp add: merged_list_def updated_locals_def new_remotes_def merge_step_def
          upd_existing_append)
  next
    case False
    then show ?thesis
      using eq by (simp add: merged_list_def updated_locals_def new_remotes_def merge_step_def)
  qed
qed

lemma merge_one_ok:
  assumes "ids \<subseteq> rid ` set (poopReports s)"
  shows "\<exists>es. (\<forall>e\<in>set es. marker_effect e) \<and>
           merge_one date ids r (s, n) =
             Inr (s\<lparr>poopReports := merge_step date ids (poopReports s) r,
                     effects := effects s @ es\<rparr>,
                  n + length (new_remotes ids [r]))"
proof (cases "rid r \<in> ids")
  case False
  then show ?thesis
    by (auto simp: merge_one_def merge_step_def new_remotes_def emit_def
        intro!: exI [of _ "if status r = Some (JStr ''active'') then [AddPoopMarker r] else []"])
next
  case True
  then have "\<exists>x\<in>set (poopReports s). rid x = rid r"
    using assms by (metis (no_types, lifting) image_iff subsetD)
  then have "find_first (\<lambda>l. rid l = rid r) (poopReports s) \<noteq> None"
    by (simp add: find_first_None_iff)
  then obtain l where l: "find_first (\<lambda>l. rid l = rid r) (poopReports s) = Some l"
    by blast
  show ?thesis
  proof (cases "newer date (timestamp r) (timestamp l)")
    case True
    then show ?thesis
      using \<open>rid r \<in> ids\<close> l
      by (auto simp: merge_one_def merge_step_def new_remotes_def emit_def upd_existing_def
          intro!: exI [of _ "[UpdateMarkerPopup (rid r)]"])
  next
    case False
    then show ?thesis
      using \<open>rid r \<in> ids\<close> l
      by (auto simp: merge_one_def merge_step_def new_remotes_def emit_def upd_existing_def
          intro!: exI [of _ "[]"])
  qed
qed

lemma merge_step_ids: "ids \<subseteq> rid ` set xs \<Longrightarrow> ids \<subseteq> rid ` set (merge_step date ids xs r)"
proof -
  assume a: "ids \<subseteq> rid ` set xs"
  have "rid ` set (upd_existing date r xs) = rid ` set xs"
    using map_rid_upd_existing [of date r xs] by (metis set_map)
  then show ?thesis using a by (auto simp: merge_step_def)
qed

lemma merge_each_ok:
  "ids \<subseteq> rid ` set (poopReports s) \<Longrightarrow>
   \<exists>es. (\<forall>e\<in>set es. marker_effect e) \<and>
     merge_each date ids rs (s, n) =
       Inr (s\<lparr>poopReports := merged_list date ids rs (poopReports s),
               effects := effects s @ es\<rparr>,
            n + length (new_remotes ids rs))"
proof (induction rs arbitrary: s n)
  case Nil
  show ?case by (auto simp: merged_list_def new_remotes_def intro!: exI [of _ "[]"])
next
  case (Cons r rs)
  obtain es1 where es1: "\<forall>e\<in>set es1. marker_effect e"
    and one: "merge_one date ids r (s, n) =
       Inr (s\<lparr>poopReports := merge_step date ids (poopReports s) r, effects := effects s @ es1\<rparr>,
            n + length (new_remotes ids [r]))"
    using merge_one_ok [OF Cons.prems] by blast
  let ?s1 = "s\<lparr>poopReports := merge_step date ids (poopReports s) r, effects := effects s @ es1\<rparr>"
  have "ids \<subseteq> rid ` set (poopReports ?s1)"
    using merge_step_ids [OF Cons.prems] by simp
  from Cons.IH [OF this, of "n + length (new_remotes ids [r])"]
  obtain es2 where es2: "\<forall>e\<in>set es2. marker_effect e"
    and rest: "merge_each date ids rs (?s1, n + length (new_remotes ids [r])) =
       Inr (?s1\<lparr>poopReports := merged_list date ids rs (poopReports ?s1),
               effects := effects ?s1 @ es2\<rparr>,
            n + length (new_remotes ids [r]) + length (new_remotes ids rs))"
    by blast
  show ?case
    using es1 es2 one rest
    by (auto simp: merged_list_def new_remotes_def intro!: exI [of _ "es1 @ es2"])
qed


lemma merge_loop_ok:
  "\<exists>es. (\<forall>e\<in>set es. marker_effect e) \<and>
     merge_loop date rs s =
       Inr (s\<lparr>poopReports :=
                 updated_locals date (set (map rid (poopReports s))) rs (poopReports s) @
                 new_remotes (set (map rid (poopReports s))) rs,
               effects := effects s @ es\<rparr>,
            length (new_remotes (set (map rid (poopReports s))) rs))"
proof -
  have sub: "set (map rid (poopReports s)) \<subseteq> rid ` set (poopReports s)" by simp
  show ?thesis
    using merge_each_ok [OF sub, of date rs 0] merged_list_split [OF sub, of date rs]
    by (simp add: merge_loop_def)
qed

lemma assign_first_nth:
  "i < length xs \<Longrightarrow> \<not> P (xs ! i) \<Longrightarrow> assign_first P f xs ! i = xs ! i"
  by (induction xs arbitrary: i) (auto simp: nth_Cons split: nat.splits)

lemma upd_existing_nth:
  "i < length xs \<Longrightarrow> rid (xs ! i) \<noteq> rid r \<Longrightarrow> upd_existing date r xs ! i = xs ! i"
  by (simp add: upd_existing_def assign_first_nth split: option.splits)

lemma rid_upd_existing_nth:
  "i < length xs \<Longrightarrow> rid (upd_existing date r xs ! i) = rid (xs ! i)"
  using map_rid_upd_existing [of date r xs] by (metis length_upd_existing nth_map)

lemma updated_locals_nth:
  "i < length xs \<Longrightarrow> rid (xs ! i) \<notin> rid ` set rs \<Longrightarrow>
   updated_locals date ids rs xs ! i = xs ! i"
proof (induction rs arbitrary: xs)
  case Nil
  show ?case by (simp add: updated_locals_def)
next
  case (Cons r rs)
  let ?ys = "if rid r \<in> ids then upd_existing date r xs else xs"
  have ne: "rid (xs ! i) \<noteq> rid r" using Cons.prems by auto
  have same: "?ys ! i = xs ! i"
    using Cons.prems(1) ne by (simp add: upd_existing_nth)
  have len: "i < length ?ys" using Cons.prems(1) by simp
  have "rid (?ys ! i) \<notin> rid ` set rs" using same Cons.prems(2) by auto
  from Cons.IH [OF len this] same
  show ?case by (simp add: updated_locals_def)
qed

lemma upd_existing_distinct:
  "distinct (map rid xs) \<Longrightarrow> upd_existing date r xs = map (\<lambda>l. overwrite date l r) xs"
proof (induction xs)
  case Nil
  show ?case by (simp add: upd_existing_def)
next
  case (Cons x xs)
  show ?case
  proof (cases "rid x = rid r")
    case True
    then have "\<forall>y\<in>set xs. rid y \<noteq> rid r" using Cons.prems by (auto simp: image_iff)
    then have "map (\<lambda>l. overwrite date l r) xs = xs"
      by (simp add: overwrite_def map_idI)
    then show ?thesis using True by (simp add: upd_existing_def overwrite_def)
  next
    case False
    have "upd_existing date r (x # xs) = x # upd_existing date r xs"
      using False by (simp add: upd_existing_def split: option.splits)
    then show ?thesis using False Cons by (simp add: overwrite_def)
  qed
qed

lemma rid_overwrite [simp]: "rid (overwrite date l r) = rid l"
  by (simp add: overwrite_def rid_object_assign)

lemma rid_foldl_overwrite [simp]: "rid (foldl (overwrite date) l rs) = rid l"
  by (induction rs arbitrary: l) auto

lemma updated_locals_distinct:
  "distinct (map rid xs) \<Longrightarrow> rid ` set xs \<subseteq> ids \<Longrightarrow>
   updated_locals date ids rs xs = map (\<lambda>l. foldl (overwrite date) l rs) xs"
proof (induction rs arbitrary: xs)
  case Nil
  show ?case by (simp add: updated_locals_def)
next
  case (Cons r rs)
  let ?ys = "map (\<lambda>l. overwrite date l r) xs"
  have rids: "map rid ?ys = map rid xs" by simp
  have step: "(if rid r \<in> ids then upd_existing date r xs else xs) = ?ys"
  proof (cases "rid r \<in> ids")
    case True
    then show ?thesis using Cons.prems by (simp add: upd_existing_distinct)
  next
    case False
    then have "\<forall>l\<in>set xs. rid l \<noteq> rid r" using Cons.prems(2) by auto
    then have "?ys = xs" by (simp add: overwrite_def map_idI)
    then show ?thesis using False by simp
  qed
  have d: "distinct (map rid ?ys)" using Cons.prems(1) rids by metis
  have i: "rid ` set ?ys \<subseteq> ids" using Cons.prems(2) by auto
  have "updated_locals date ids (r # rs) xs = updated_locals date ids rs ?ys"
    using step by (simp add: updated_locals_def)
  also have "\<dots> = map (\<lambda>l. foldl (overwrite date) l rs) ?ys"
    using Cons.IH [OF d i] .
  finally show ?case by (simp add: comp_def)
qed

lemma foldl_overwrite_none:
  "\<forall>r\<in>set rs. rid r \<noteq> rid l \<Longrightarrow> foldl (overwrite date) l rs = l"
  by (induction rs) (auto simp: overwrite_def)

lemma foldl_overwrite_one:
  "distinct (map rid rs) \<Longrightarrow> r \<in> set rs \<Longrightarrow> rid l = rid r \<Longrightarrow>
   foldl (overwrite date) l rs = overwrite date l r"
proof (induction rs)
  case Nil
  then show ?case by simp
next
  case (Cons a rs)
  show ?case
  proof (cases "a = r")
    case True
    have "\<forall>x\<in>set rs. rid x \<noteq> rid (overwrite date l r)"
      using Cons.prems True by (auto simp: image_iff)
    then show ?thesis using True by (simp add: foldl_overwrite_none)
  next
    case False
    then have r: "r \<in> set rs" using Cons.prems by simp
    then have "rid a \<noteq> rid r" using Cons.prems(1) by auto
    then have "overwrite date l a = l" using Cons.prems(3) by (simp add: overwrite_def)
    then show ?thesis using Cons r by simp
  qed
qed

lemma filter_map_key:
  "distinct (map f xs) \<Longrightarrow> l \<in> set xs \<Longrightarrow> (\<And>x. f (g x) = f x) \<Longrightarrow>
   filter (\<lambda>m. f m = f l) (map g xs) = [g l]"
proof (induction xs)
  case Nil
  then show ?case by simp
next
  case (Cons x xs)
  show ?case
  proof (cases "x = l")
    case True
    have "\<forall>y\<in>set xs. f y \<noteq> f l" using Cons.prems(1) True by (auto simp: image_iff)
    then have "filter (\<lambda>m. f m = f l) (map g xs) = []"
      using Cons.prems(3) by (simp add: filter_empty_conv)
    then show ?thesis using True Cons.prems(3) by simp
  next
    case False
    then have "l \<in> set xs" using Cons.prems by simp
    moreover from this have "f x \<noteq> f l" using Cons.prems(1) by auto
    ultimately show ?thesis using Cons by simp
  qed
qed

lemma object_assign_covers: "dom l \<subseteq> dom r \<Longrightarrow> object_assign l r = r"
  unfolding object_assign_def
  by (rule ext) (auto simp: map_add_def split: option.splits)



lemma poopReports_fresh [simp]: "poopReports (fresh xs) = xs"
  by (simp add: fresh_def)

lemmas example_defs = mk_report_def millis_date_def cleaned_local_def later_remote_def
  first_copy_def second_copy_def

lemmas merge_defs = mergeReports_def merge_loop_def merge_one_def emit_def rid_def
  timestamp_def status_def newer_def instant_def object_assign_def fresh_def

lemma mergeReports_ok:
  "\<exists>es. (\<forall>e\<in>set es. marker_effect e) \<and>
     mergeReports date rs s =
       Inr (s\<lparr>poopReports :=
                 updated_locals date (set (map rid (poopReports s))) rs (poopReports s) @
                 new_remotes (set (map rid (poopReports s))) rs,
               effects := effects s @ es @
                 (if 0 < length (new_remotes (set (map rid (poopReports s))) rs)
                  then [UpdateStats,
                        SaveReports (updated_locals date (set (map rid (poopReports s))) rs (poopReports s) @
                          new_remotes (set (map rid (poopReports s))) rs),
                        ShowSyncNotification (length (new_remotes (set (map rid (poopReports s))) rs))]
                  else [])\<rparr>)"
proof -
  obtain es where es: "\<forall>e\<in>set es. marker_effect e"
    and loop: "merge_loop date rs s =
       Inr (s\<lparr>poopReports :=
                 updated_locals date (set (map rid (poopReports s))) rs (poopReports s) @
                 new_remotes (set (map rid (poopReports s))) rs,
               effects := effects s @ es\<rparr>,
            length (new_remotes (set (map rid (poopReports s))) rs))"
    using merge_loop_ok [of date rs s] by blast
  show ?thesis
    using es loop by (auto simp: mergeReports_def emit_def intro!: exI [of _ es])
qed

lemma marker_effects_silent:
  "\<forall>e\<in>set es. marker_effect e \<Longrightarrow>
   filter is_save es = [] \<and> filter is_notification es = [] \<and> filter is_ui_error es = []"
proof (induction es)
  case Nil
  show ?case by simp
next
  case (Cons e es)
  then show ?case by (cases e) simp_all
qed

lemma merge_distinct_ids:
  assumes "distinct (map rid (poopReports s))" and "distinct (map rid remoteReports)"
  shows "\<exists>s'. mergeReports date remoteReports s = Inr s' \<and> distinct (map rid (poopReports s'))"
proof -
  let ?L = "poopReports s"
  let ?U = "updated_locals date (set (map rid ?L)) remoteReports ?L"
  let ?N = "new_remotes (set (map rid ?L)) remoteReports"
  obtain s' where m: "mergeReports date remoteReports s = Inr s'"
    and p: "poopReports s' = ?U @ ?N"
    using mergeReports_ok [of date remoteReports s] by auto
  have "distinct (map rid ?N)"
    using assms(2) by (simp add: new_remotes_def distinct_map_filter)
  moreover have "set (map rid ?L) \<inter> set (map rid ?N) = {}"
    by (auto simp: new_remotes_def) (metis imageI)
  ultimately have "distinct (map rid (?U @ ?N))"
    using assms(1) by simp
  then show ?thesis using m p by simp
qed

lemmas transfer_defs = downloadReports_def uploadReports_def downloadFromJSONBin_def
  downloadFromGist_def downloadFromCustomAPI_def uploadToJSONBin_def uploadToGist_def
  uploadToCustomAPI_def uploadToFirebase_def emit_def

lemma download_empty_quiet:
  "reports = None \<or> reports = Some [] \<Longrightarrow>
   poopReports (downloadReports date now (Ok reports) s) = poopReports s \<and>
   filter is_save (effects (downloadReports date now (Ok reports) s)) = filter is_save (effects s) \<and>
   filter is_notification (effects (downloadReports date now (Ok reports) s)) =
     filter is_notification (effects s)"
  by (cases "syncMethod s") (auto simp: transfer_defs)

lemma same_keys: "object_assign first_copy second_copy = second_copy"
  by (rule object_assign_covers) (simp add: example_defs)

lemma copies_differ: "first_copy \<noteq> second_copy"
proof
  assume "first_copy = second_copy"
  then have "first_copy ''timestamp'' = second_copy ''timestamp''" by simp
  then show False by (simp add: example_defs)
qed

lemma copies_facts: "rid first_copy = Some (JStr ''a'')" "rid second_copy = Some (JStr ''a'')"
  "timestamp first_copy = Some (JNum 1)" "timestamp second_copy = Some (JNum 2)"
  "status first_copy = Some (JStr ''active'')" "status second_copy = Some (JStr ''active'')"
  by (simp_all add: example_defs rid_def timestamp_def status_def)

lemmas eval_defs = mergeReports_def merge_loop_def merge_one_def emit_def
  newer_def instant_def fresh_def

subsection \<open>Merging the same remote array again\<close>

lemma newer_irrefl [simp]: "\<not> newer date a a"
  by (simp add: newer_def split: option.splits)

lemma newer_has_timestamp: "newer date a b \<Longrightarrow> a \<noteq> None"
  by (auto simp: newer_def instant_def split: option.splits)

lemma timestamp_object_assign:
  "timestamp r \<noteq> None \<Longrightarrow> timestamp (object_assign l r) = timestamp r"
  by (auto simp: timestamp_def object_assign_def map_add_def split: option.splits)

lemma find_first_assign_first:
  "find_first P xs = Some l \<Longrightarrow> P (f l) \<Longrightarrow> find_first P (assign_first P f xs) = Some (f l)"
  by (induction xs) (auto split: if_splits)

lemma find_first_assign_other:
  "(\<And>x. P x \<Longrightarrow> \<not> Q x \<and> \<not> Q (f x)) \<Longrightarrow>
   find_first Q (assign_first P f xs) = find_first Q xs"
  by (induction xs) auto

lemma find_first_append_none:
  "\<forall>x\<in>set xs. \<not> P x \<Longrightarrow> find_first P (xs @ ys) = find_first P ys"
  by (induction xs) auto

lemma upd_existing_settles:
  assumes f: "find_first (\<lambda>l. rid l = rid r) (upd_existing date r xs) = Some l'"
  shows "\<not> newer date (timestamp r) (timestamp l')"
proof (cases "find_first (\<lambda>l. rid l = rid r) xs")
  case None
  then show ?thesis using f by (simp add: upd_existing_def)
next
  case (Some l)
  show ?thesis
  proof (cases "newer date (timestamp r) (timestamp l)")
    case True
    have "rid l = rid r" using Some find_first_Some by fastforce
    then have "rid (object_assign l r) = rid r" by (rule rid_object_assign)
    then have "find_first (\<lambda>l. rid l = rid r)
        (assign_first (\<lambda>l. rid l = rid r) (\<lambda>l. object_assign l r) xs) = Some (object_assign l r)"
      using Some by (intro find_first_assign_first) simp_all
    then have "l' = object_assign l r"
      using f Some True by (simp add: upd_existing_def)
    moreover have "timestamp r \<noteq> None" using True by (rule newer_has_timestamp)
    ultimately show ?thesis by (simp add: timestamp_object_assign)
  next
    case False
    then show ?thesis using f Some by (simp add: upd_existing_def)
  qed
qed

lemma upd_existing_other_id:
  "rid a \<noteq> k \<Longrightarrow>
   find_first (\<lambda>l. rid l = k) (upd_existing date a xs) = find_first (\<lambda>l. rid l = k) xs"
  by (auto simp: upd_existing_def rid_object_assign intro!: find_first_assign_other
      split: option.splits)

lemma updated_locals_other_ids:
  "\<forall>a\<in>set rs. rid a \<noteq> k \<Longrightarrow>
   find_first (\<lambda>l. rid l = k) (updated_locals date ids rs xs) = find_first (\<lambda>l. rid l = k) xs"
proof (induction rs arbitrary: xs)
  case Nil
  show ?case by (simp add: updated_locals_def)
next
  case (Cons a rs)
  have "updated_locals date ids (a # rs) xs =
      updated_locals date ids rs (if rid a \<in> ids then upd_existing date a xs else xs)"
    by (simp add: updated_locals_def)
  then show ?case using Cons by (simp add: upd_existing_other_id)
qed

lemma updated_locals_settles:
  "distinct (map rid rs) \<Longrightarrow> r \<in> set rs \<Longrightarrow> rid r \<in> ids \<Longrightarrow>
   find_first (\<lambda>l. rid l = rid r) (updated_locals date ids rs xs) = Some l' \<Longrightarrow>
   \<not> newer date (timestamp r) (timestamp l')"
proof (induction rs arbitrary: xs)
  case Nil
  then show ?case by simp
next
  case (Cons a rs)
  have unfold: "updated_locals date ids (a # rs) xs =
      updated_locals date ids rs (if rid a \<in> ids then upd_existing date a xs else xs)"
    by (simp add: updated_locals_def)
  show ?case
  proof (cases "a = r")
    case True
    have "\<forall>b\<in>set rs. rid b \<noteq> rid r" using Cons.prems(1) True by (auto simp: image_iff)
    then have "find_first (\<lambda>l. rid l = rid r) (upd_existing date r xs) = Some l'"
      using Cons.prems(3,4) True unfold by (simp add: updated_locals_other_ids)
    then show ?thesis by (rule upd_existing_settles)
  next
    case False
    then have "r \<in> set rs" using Cons.prems(2) by simp
    moreover have "distinct (map rid rs)" using Cons.prems(1) by simp
    ultimately show ?thesis
      using Cons.IH Cons.prems(3,4) unfold by metis
  qed
qed

lemma find_first_filter_own:
  "distinct (map rid rs) \<Longrightarrow> r \<in> set rs \<Longrightarrow> Q r \<Longrightarrow>
   find_first (\<lambda>l. rid l = rid r) (filter Q rs) = Some r"
proof (induction rs)
  case Nil
  then show ?case by simp
next
  case (Cons a rs)
  show ?case
  proof (cases "a = r")
    case True
    then show ?thesis using Cons.prems by simp
  next
    case False
    then have "r \<in> set rs" using Cons.prems by simp
    then have "rid a \<noteq> rid r" using Cons.prems(1) by (auto simp: image_iff)
    then show ?thesis using Cons \<open>r \<in> set rs\<close> by simp
  qed
qed

lemma merge_each_settled:
  "ids \<subseteq> rid ` set (poopReports s) \<Longrightarrow>
   \<forall>r\<in>set rs. rid r \<in> ids \<and>
      (\<forall>l'. find_first (\<lambda>l. rid l = rid r) (poopReports s) = Some l' \<longrightarrow>
            \<not> newer date (timestamp r) (timestamp l')) \<Longrightarrow>
   merge_each date ids rs (s, n) = Inr (s, n)"
proof (induction rs)
  case Nil
  show ?case by simp
next
  case (Cons r rs)
  have "\<exists>x\<in>set (poopReports s). rid x = rid r"
    using Cons.prems by (metis (no_types, lifting) image_iff list.set_intros(1) subsetD)
  then have "find_first (\<lambda>l. rid l = rid r) (poopReports s) \<noteq> None"
    by (simp add: find_first_None_iff)
  then obtain l' where "find_first (\<lambda>l. rid l = rid r) (poopReports s) = Some l'" by blast
  then have "merge_one date ids r (s, n) = Inr (s, n)"
    using Cons.prems(2) by (simp add: merge_one_def)
  then show ?case using Cons by simp
qed

lemma merge_idempotent_distinct:
  assumes "distinct (map rid remoteReports)" and "mergeReports date remoteReports s = Inr s1"
  shows "merge_loop date remoteReports s1 = Inr (s1, 0) \<and>
         mergeReports date remoteReports s1 = Inr s1"
proof -
  let ?L = "poopReports s"
  let ?ids = "set (map rid ?L)"
  let ?U = "updated_locals date ?ids remoteReports ?L"
  let ?N = "new_remotes ?ids remoteReports"
  have p: "poopReports s1 = ?U @ ?N"
    using mergeReports_ok [of date remoteReports s] assms(2) by auto
  have rU: "rid ` set ?U = ?ids"
    using map_rid_updated_locals [of date ?ids remoteReports ?L] by (metis set_map)
  have settled: "\<forall>r\<in>set remoteReports. rid r \<in> set (map rid (poopReports s1)) \<and>
      (\<forall>l'. find_first (\<lambda>l. rid l = rid r) (poopReports s1) = Some l' \<longrightarrow>
            \<not> newer date (timestamp r) (timestamp l'))"
  proof
    fix r assume r: "r \<in> set remoteReports"
    show "rid r \<in> set (map rid (poopReports s1)) \<and>
      (\<forall>l'. find_first (\<lambda>l. rid l = rid r) (poopReports s1) = Some l' \<longrightarrow>
            \<not> newer date (timestamp r) (timestamp l'))"
    proof (cases "rid r \<in> ?ids")
      case True
      then have ex: "\<exists>x\<in>set ?U. rid x = rid r" using rU by (metis (no_types, lifting) image_iff)
      have "find_first (\<lambda>l. rid l = rid r) (poopReports s1) = find_first (\<lambda>l. rid l = rid r) ?U"
        using p find_first_append [OF ex] by simp
      moreover have "rid r \<in> set (map rid (poopReports s1))" using p rU True by auto
      ultimately show ?thesis
        using updated_locals_settles [OF assms(1) r True] by simp
    next
      case False
      then have none: "\<forall>x\<in>set ?U. \<not> rid x = rid r" using rU by (metis image_eqI)
      have rN: "r \<in> set ?N" using r False by (simp add: new_remotes_def)
      have "find_first (\<lambda>l. rid l = rid r) (poopReports s1) = find_first (\<lambda>l. rid l = rid r) ?N"
        using p find_first_append_none [OF none] by simp
      also have "\<dots> = Some r"
        unfolding new_remotes_def using assms(1) r False by (intro find_first_filter_own) simp_all
      finally have "find_first (\<lambda>l. rid l = rid r) (poopReports s1) = Some r" .
      moreover have "rid r \<in> set (map rid (poopReports s1))" using p rN by auto
      ultimately show ?thesis by simp
    qed
  qed
  have sub: "set (map rid (poopReports s1)) \<subseteq> rid ` set (poopReports s1)" by simp
  have loop: "merge_loop date remoteReports s1 = Inr (s1, 0)"
    unfolding merge_loop_def using merge_each_settled [OF sub settled] .
  then show ?thesis by (simp add: mergeReports_def)
qed

section \<open>Facts about upload and download\<close>

lemma mergeReports_frame:
  "\<exists>s'. mergeReports date rs s = Inr s' \<and> same_control s s'"
proof -
  obtain es where es: "\<forall>e\<in>set es. marker_effect e"
    and m: "mergeReports date rs s =
       Inr (s\<lparr>poopReports :=
                 updated_locals date (set (map rid (poopReports s))) rs (poopReports s) @
                 new_remotes (set (map rid (poopReports s))) rs,
               effects := effects s @ es @
                 (if 0 < length (new_remotes (set (map rid (poopReports s))) rs)
                  then [UpdateStats,
                        SaveReports (updated_locals date (set (map rid (poopReports s))) rs (poopReports s) @
                          new_remotes (set (map rid (poopReports s))) rs),
                        ShowSyncNotification (length (new_remotes (set (map rid (poopReports s))) rs))]
                  else [])\<rparr>)"
    using mergeReports_ok [of date rs s] by blast
  have "filter is_ui_error es = []" using marker_effects_silent [OF es] by simp
  then show ?thesis using m by (simp add: same_control_def)
qed

lemma downloadReports_frame: "same_control s (downloadReports date now resp s)"
proof (cases resp)
  case (Thrown er)
  then show ?thesis
    by (cases "syncMethod s") (simp_all add: transfer_defs same_control_def)
next
  case NotOk
  then show ?thesis
    by (cases "syncMethod s") (simp_all add: transfer_defs same_control_def)
next
  case (Ok reports)
  let ?rs = "case reports of None \<Rightarrow> [] | Some rs \<Rightarrow> rs"
  have merged: "\<And>m. \<exists>s'. mergeReports date ?rs (emit [HttpDownload m] s) = Inr s' \<and>
      same_control s s'"
  proof -
    fix m
    obtain s' where "mergeReports date ?rs (emit [HttpDownload m] s) = Inr s'"
      and "same_control (emit [HttpDownload m] s) s'"
      using mergeReports_frame [of date ?rs "emit [HttpDownload m] s"] by blast
    then show "\<exists>s'. mergeReports date ?rs (emit [HttpDownload m] s) = Inr s' \<and> same_control s s'"
      by (simp add: same_control_def emit_def)
  qed
  show ?thesis
  proof (cases "syncMethod s")
    case Firebase
    then show ?thesis by (simp add: downloadReports_def same_control_def)
  next
    case GitHubGist
    obtain s' where "mergeReports date ?rs (emit [HttpDownload GitHubGist] s) = Inr s'"
      and "same_control s s'"
      using merged by blast
    then show ?thesis
      using Ok GitHubGist
      by (simp add: downloadReports_def downloadFromGist_def Let_def same_control_def emit_def)
  next
    case Custom
    obtain s' where "mergeReports date ?rs (emit [HttpDownload Custom] s) = Inr s'"
      and "same_control s s'"
      using merged by blast
    then show ?thesis
      using Ok Custom
      by (simp add: downloadReports_def downloadFromCustomAPI_def Let_def same_control_def emit_def)
  next
    case Simple
    obtain s' where "mergeReports date ?rs (emit [HttpDownload Simple] s) = Inr s'"
      and "same_control s s'"
      using merged by blast
    then show ?thesis
      using Ok Simple
      by (simp add: downloadReports_def downloadFromJSONBin_def Let_def same_control_def emit_def)
  next
    case Unrecognised
    then show ?thesis
      by (simp add: downloadReports_def Let_def same_control_def emit_def)
  qed
qed

lemma uploadReports_frame:
  "same_control s (uploadReports key now resp s) \<and>
   poopReports (uploadReports key now resp s) = poopReports s"
  by (cases "syncMethod s"; cases resp) (simp_all add: transfer_defs same_control_def)

section \<open>The claims about the merge\<close>

text \<open>
  Claim C1, last write wins by timestamp. As the claim words it, the merged record
  \<^emph>\<open>equals\<close> the remote one when the remote timestamp is strictly later. The code calls
  \<^verbatim>\<open>Object.assign(localReport, remoteReport)\<close>, which overwrites the properties the
  remote record has and keeps every property only the local record has. What holds: for a
  local array and a remote array that each hold an id at most once, and a local record
  \<open>l\<close> and a remote record \<open>r\<close> with the same id, the merge returns, and afterwards
  exactly one record has that id; it is \<open>l\<close> with the properties of \<open>r\<close> written over it
  when the timestamp of \<open>r\<close> is strictly later as an instant, and \<open>l\<close> untouched
  otherwise. The overwritten record is \<open>r\<close> itself whenever \<open>r\<close> has every property
  that \<open>l\<close> has.
\<close>

theorem merge_last_write_wins:
  assumes "distinct (map rid (poopReports s))" and "distinct (map rid remoteReports)"
    and "l \<in> set (poopReports s)" and "r \<in> set remoteReports" and "rid l = rid r"
  shows "\<exists>s'. mergeReports date remoteReports s = Inr s' \<and>
           filter (\<lambda>m. rid m = rid r) (poopReports s') =
             [if newer date (timestamp r) (timestamp l) then object_assign l r else l] \<and>
           (dom l \<subseteq> dom r \<longrightarrow> object_assign l r = r)"
proof -
  let ?L = "poopReports s"
  let ?ids = "set (map rid ?L)"
  obtain es where loop: "merge_loop date remoteReports s =
       Inr (s\<lparr>poopReports := updated_locals date ?ids remoteReports ?L @ new_remotes ?ids remoteReports,
               effects := effects s @ es\<rparr>,
            length (new_remotes ?ids remoteReports))"
    using merge_loop_ok [of date remoteReports s] by blast
  have upd: "updated_locals date ?ids remoteReports ?L =
      map (\<lambda>l. foldl (overwrite date) l remoteReports) ?L"
    using assms(1) by (simp add: updated_locals_distinct)
  have "filter (\<lambda>m. rid m = rid l) (map (\<lambda>l. foldl (overwrite date) l remoteReports) ?L) =
      [foldl (overwrite date) l remoteReports]"
    using assms(1,3) by (intro filter_map_key) simp_all
  moreover have "foldl (overwrite date) l remoteReports = overwrite date l r"
    using assms(2,4,5) by (rule foldl_overwrite_one)
  moreover have "rid r \<in> ?ids"
    using assms(3,5) by (metis image_eqI set_map)
  then have "filter (\<lambda>m. rid m = rid r) (new_remotes ?ids remoteReports) = []"
    by (auto simp: new_remotes_def filter_empty_conv)
  ultimately have fl: "filter (\<lambda>m. rid m = rid r)
      (updated_locals date ?ids remoteReports ?L @ new_remotes ?ids remoteReports) =
      [if newer date (timestamp r) (timestamp l) then object_assign l r else l]"
    using upd assms(5) by (simp add: overwrite_def)
  have "\<exists>s'. mergeReports date remoteReports s = Inr s' \<and>
      poopReports s' = updated_locals date ?ids remoteReports ?L @ new_remotes ?ids remoteReports"
    using loop by (simp add: mergeReports_def emit_def)
  then show ?thesis using fl object_assign_covers [of l r] by auto
qed


theorem merge_last_write_wins_witness:
  "\<exists>s'. mergeReports millis_date [later_remote] (fresh [mk_report ''a'' 1 ''cleaned'']) = Inr s' \<and>
     filter (\<lambda>m. rid m = rid later_remote) (poopReports s') = [later_remote]"
proof -
  let ?l = "mk_report ''a'' 1 ''cleaned''"
  have h1: "distinct (map rid (poopReports (fresh [?l])))" by simp
  have h2: "distinct (map rid [later_remote])" by simp
  have h3: "?l \<in> set (poopReports (fresh [?l]))" by simp
  have h4: "later_remote \<in> set [later_remote]" by simp
  have h5: "rid ?l = rid later_remote" by (simp add: example_defs rid_def)
  have n: "newer millis_date (timestamp later_remote) (timestamp ?l)"
    by (simp add: example_defs merge_defs)
  have d: "dom ?l \<subseteq> dom later_remote" by (simp add: example_defs)
  show ?thesis
    using merge_last_write_wins [OF h1 h2 h3 h4 h5, of millis_date] n d by auto
qed

text \<open>
  The claim as worded fails on a local report that was marked cleaned: after the merge
  with a later remote copy the record still carries \<^verbatim>\<open>cleanedAt\<close>, so it is not the
  remote record.
\<close>

theorem merge_overwrite_keeps_local_only_properties:
  "rid cleaned_local = rid later_remote \<and>
   newer millis_date (timestamp later_remote) (timestamp cleaned_local) \<and>
   poopReports (state_of (mergeReports millis_date [later_remote] (fresh [cleaned_local])))
     \<noteq> [later_remote]"
proof -
  have "poopReports (state_of (mergeReports millis_date [later_remote] (fresh [cleaned_local])))
     = [cleaned_local ++ later_remote]"
    by (simp add: example_defs merge_defs)
  moreover have "cleaned_local ++ later_remote \<noteq> later_remote"
  proof
    assume "cleaned_local ++ later_remote = later_remote"
    then have "(cleaned_local ++ later_remote) ''cleanedAt'' = later_remote ''cleanedAt''"
      by simp
    then show False by (simp add: example_defs)
  qed
  ultimately show ?thesis by (simp add: example_defs merge_defs)
qed


text \<open>
  Claim C2, no duplication. The set \<^verbatim>\<open>localIds\<close> is built once before the loop and a
  pushed record's id is never added to it, so a remote array that holds an id twice,
  with that id unknown locally, has both records pushed. The merge of two remote records
  with id \<open>a\<close> into an empty local array leaves two records with id \<open>a\<close>. (When neither
  array repeats an id the result does not either: \<open>merge_distinct_ids\<close>.)
\<close>

theorem merge_pushes_repeated_remote_id:
  "poopReports (state_of (mergeReports millis_date [first_copy, second_copy] (fresh []))) =
     [first_copy, second_copy] \<and>
   rid first_copy = rid second_copy \<and>
   \<not> distinct (map rid
        (poopReports (state_of (mergeReports millis_date [first_copy, second_copy] (fresh [])))))"
  by (simp add: eval_defs copies_facts)


text \<open>
  Claim C3, idempotent merge. After the merge above both copies are local. Merging the
  same remote array again finds the first local copy for each of them, and the second
  remote record is newer than that copy, so the copy is overwritten: the second merge
  changes the local array. (When the remote array does not repeat an id the second merge
  changes nothing: \<open>merge_idempotent_distinct\<close>.)
\<close>

theorem merge_again_changes_state:
  "poopReports (state_of (mergeReports millis_date [first_copy, second_copy] (fresh []))) =
     [first_copy, second_copy] \<and>
   poopReports (state_of (mergeReports millis_date [first_copy, second_copy]
       (state_of (mergeReports millis_date [first_copy, second_copy] (fresh []))))) =
     [second_copy, second_copy] \<and>
   [second_copy, second_copy] \<noteq> [first_copy, second_copy]"
  using copies_differ
  by (simp add: eval_defs copies_facts same_keys millis_date_def)


text \<open>
  Claim C4, the empty remote set and the gating of persistence and notification.
  Merging the empty array returns the state as it was, with counter zero. For every
  remote array the loop returns with a counter \<open>n\<close>, the number of remote records whose
  id was not local, and among the calls the whole merge adds there is one
  \<^verbatim>\<open>saveReports\<close>, of the merged array, and one notification, carrying \<open>n\<close>, when
  \<open>n\<close> is positive, and neither of them when it is zero. A download that brings the
  empty array leaves the local array alone, persists nothing and notifies nothing.
\<close>

theorem merge_notification_gating:
  "mergeReports date [] s = Inr s \<and> merge_loop date [] s = Inr (s, 0) \<and>
   (\<exists>s1 n added.
      merge_loop date remoteReports s = Inr (s1, n) \<and>
      n = length (filter (\<lambda>r. rid r \<notin> rid ` set (poopReports s)) remoteReports) \<and>
      mergeReports date remoteReports s = Inr (s1\<lparr>effects := effects s @ added\<rparr>) \<and>
      filter is_save added = (if 0 < n then [SaveReports (poopReports s1)] else []) \<and>
      filter is_notification added = (if 0 < n then [ShowSyncNotification n] else [])) \<and>
   poopReports (downloadReports date now (Ok (Some [])) s) = poopReports s \<and>
   filter is_save (effects (downloadReports date now (Ok (Some [])) s)) =
     filter is_save (effects s) \<and>
   filter is_notification (effects (downloadReports date now (Ok (Some [])) s)) =
     filter is_notification (effects s)"
proof -
  have dl: "poopReports (downloadReports date now (Ok (Some [])) s) = poopReports s \<and>
     filter is_save (effects (downloadReports date now (Ok (Some [])) s)) =
       filter is_save (effects s) \<and>
     filter is_notification (effects (downloadReports date now (Ok (Some [])) s)) =
       filter is_notification (effects s)"
    by (rule download_empty_quiet) simp
  have e: "mergeReports date [] s = Inr s \<and> merge_loop date [] s = Inr (s, 0)"
    by (simp add: mergeReports_def merge_loop_def)
  let ?L = "poopReports s"
  let ?M = "updated_locals date (set (map rid ?L)) remoteReports ?L @
            new_remotes (set (map rid ?L)) remoteReports"
  let ?n = "length (new_remotes (set (map rid ?L)) remoteReports)"
  obtain es where es: "\<forall>e\<in>set es. marker_effect e"
    and loop: "merge_loop date remoteReports s =
       Inr (s\<lparr>poopReports := ?M, effects := effects s @ es\<rparr>, ?n)"
    using merge_loop_ok [of date remoteReports s] by blast
  let ?s1 = "s\<lparr>poopReports := ?M, effects := effects s @ es\<rparr>"
  let ?added = "es @ (if 0 < ?n then [UpdateStats, SaveReports ?M, ShowSyncNotification ?n] else [])"
  have quiet: "filter is_save es = []" "filter is_notification es = []"
    using marker_effects_silent [OF es] by simp_all
  have 1: "?n = length (filter (\<lambda>r. rid r \<notin> rid ` set ?L) remoteReports)"
    by (simp add: new_remotes_def)
  have 2: "mergeReports date remoteReports s = Inr (?s1\<lparr>effects := effects s @ ?added\<rparr>)"
    using loop by (simp add: mergeReports_def emit_def)
  have 3: "filter is_save ?added = (if 0 < ?n then [SaveReports (poopReports ?s1)] else [])"
    using quiet by simp
  have 4: "filter is_notification ?added = (if 0 < ?n then [ShowSyncNotification ?n] else [])"
    using quiet by simp
  show ?thesis using e loop 1 2 3 4 dl by blast
qed


theorem merge_notification_gating_witness:
  "\<exists>s1 added.
      merge_loop millis_date [first_copy] (fresh []) = Inr (s1, 1) \<and>
      mergeReports millis_date [first_copy] (fresh []) = Inr (s1\<lparr>effects := added\<rparr>) \<and>
      filter is_save added = [SaveReports (poopReports s1)] \<and>
      filter is_notification added = [ShowSyncNotification 1]"
proof -
  have e: "effects (fresh []) = []" by (simp add: fresh_def)
  have n: "length (filter (\<lambda>r. rid r \<notin> rid ` set (poopReports (fresh []))) [first_copy]) = 1"
    by simp
  show ?thesis
    using merge_notification_gating [of millis_date "fresh []" "[first_copy]"] e n by auto
qed

text \<open>
  Claim C10, the merge never loses local records. The merge returns; every local id is
  still present; the first \<open>length L\<close> positions hold records with the ids of \<open>L\<close> in
  the same order; a local record whose id no remote record has is unchanged at its
  position; and what follows those positions is exactly the remote records whose id was
  not local, in the order of the remote array.
\<close>

theorem merge_keeps_local_records:
  "\<exists>s'. mergeReports date remoteReports s = Inr s' \<and>
     rid ` set (poopReports s) \<subseteq> rid ` set (poopReports s') \<and>
     map rid (take (length (poopReports s)) (poopReports s')) = map rid (poopReports s) \<and>
     (\<forall>i < length (poopReports s).
        rid (poopReports s ! i) \<notin> rid ` set remoteReports \<longrightarrow>
        poopReports s' ! i = poopReports s ! i) \<and>
     drop (length (poopReports s)) (poopReports s') =
       filter (\<lambda>r. rid r \<notin> rid ` set (poopReports s)) remoteReports"
proof -
  let ?L = "poopReports s"
  let ?U = "updated_locals date (set (map rid ?L)) remoteReports ?L"
  let ?N = "new_remotes (set (map rid ?L)) remoteReports"
  obtain s' where m: "mergeReports date remoteReports s = Inr s'"
    and p: "poopReports s' = ?U @ ?N"
    using mergeReports_ok [of date remoteReports s] by auto
  have len: "length ?U = length ?L" by simp
  have rids: "map rid ?U = map rid ?L" by simp
  have a: "rid ` set ?L \<subseteq> rid ` set (poopReports s')"
    using p rids by (metis Un_upper1 image_Un set_append set_map)
  have b: "map rid (take (length ?L) (poopReports s')) = map rid ?L"
    using p len rids by simp
  have c: "\<forall>i < length ?L. rid (?L ! i) \<notin> rid ` set remoteReports \<longrightarrow>
      poopReports s' ! i = ?L ! i"
    using p len by (simp add: nth_append updated_locals_nth)
  have d: "drop (length ?L) (poopReports s') =
      filter (\<lambda>r. rid r \<notin> rid ` set ?L) remoteReports"
    using p len by (simp add: new_remotes_def)
  show ?thesis using m a b c d by blast
qed


theorem merge_keeps_local_records_witness:
  "\<exists>s'. mergeReports millis_date [mk_report ''c'' 1 ''active'', later_remote]
            (fresh [mk_report ''b'' 1 ''active'', cleaned_local]) = Inr s' \<and>
     poopReports s' ! 0 = mk_report ''b'' 1 ''active'' \<and>
     drop 2 (poopReports s') = [mk_report ''c'' 1 ''active'']"
proof -
  let ?L = "[mk_report ''b'' 1 ''active'', cleaned_local]"
  let ?R = "[mk_report ''c'' 1 ''active'', later_remote]"
  obtain s' where m: "mergeReports millis_date ?R (fresh ?L) = Inr s'"
    and keep: "\<forall>i < length (poopReports (fresh ?L)).
        rid (poopReports (fresh ?L) ! i) \<notin> rid ` set ?R \<longrightarrow>
        poopReports s' ! i = poopReports (fresh ?L) ! i"
    and new: "drop (length (poopReports (fresh ?L))) (poopReports s') =
        filter (\<lambda>r. rid r \<notin> rid ` set (poopReports (fresh ?L))) ?R"
    using merge_keeps_local_records [of millis_date ?R "fresh ?L"] by blast
  have "rid (poopReports (fresh ?L) ! 0) \<notin> rid ` set ?R"
    by (simp add: example_defs rid_def)
  then have "poopReports s' ! 0 = mk_report ''b'' 1 ''active''"
    using keep by simp
  moreover have "drop 2 (poopReports s') = [mk_report ''c'' 1 ''active'']"
    using new by (simp add: example_defs rid_def numeral_2_eq_2)
  ultimately show ?thesis using m by blast
qed


section \<open>The claims about the engine\<close>

lemmas life_defs = BackendSync_def loadSyncConfig_def initializeSync_def initFirebaseSync_def
  initGitHubGistSync_def initCustomSync_def initSimpleSync_def createGist_def saveSyncConfig_def
  startAutoSync_def stopAutoSync_def clearInterval_def truthy_def no_config_def fresh_def
  timer_tick_def

lemma firebase_engine_eval:
  "syncEnabled firebase_engine \<and> syncMethod firebase_engine = Firebase \<and>
   liveTimers firebase_engine = [1] \<and> syncInterval firebase_engine = Some 1 \<and>
   valueListeners firebase_engine = 1"
  by (simp add: firebase_engine_def firebase_config_def life_defs transfer_defs)

lemma gist_engine_eval:
  "syncEnabled gist_engine \<and> syncMethod gist_engine = GitHubGist \<and>
   liveTimers gist_engine = [1] \<and> syncInterval gist_engine = Some 1 \<and>
   poopReports gist_engine = [first_copy] \<and>
   effects gist_engine = [HttpDownload GitHubGist]"
  by (simp add: gist_engine_def gist_config_def life_defs transfer_defs)

lemma custom_engine_eval:
  "syncEnabled custom_engine \<and> syncMethod custom_engine = Custom \<and>
   liveTimers custom_engine = [1] \<and> syncInterval custom_engine = Some 1"
  by (simp add: custom_engine_def custom_config_def life_defs transfer_defs)


text \<open>
  Claim C5, transient failures. The claim has the failure logged and reported to the UI
  notifier. The two \<^verbatim>\<open>catch\<close> blocks call \<^verbatim>\<open>console.error\<close> and nothing else;
  \<^verbatim>\<open>showSyncError\<close> is called by \<^verbatim>\<open>initializeSync\<close> only. What holds, while sync is
  enabled and the exchange fails (it throws, or the reply is not ok): for the three
  fetch-based methods the download returns the state it was given with the request and
  one \<^verbatim>\<open>console.error\<close> added to the record of calls, and so does the upload; a
  rejected Firebase update does the same; nothing is thrown to the caller; the switch,
  the method, the timer and the listeners are as they were, no error is shown to the
  user, the upload leaves the local array alone; and every timer that was live still runs
  the download when it fires next.
\<close>

theorem transfer_failure_is_contained:
  assumes "syncEnabled s"
    and "down = NotOk \<or> down = Thrown e1"
    and "up = NotOk \<or> up = Thrown e2"
  shows "(syncMethod s = Simple \<or> syncMethod s = GitHubGist \<or> syncMethod s = Custom \<longrightarrow>
           (\<exists>er. downloadReports date now down s =
                   emit [HttpDownload (syncMethod s), ConsoleError er] s) \<and>
           (\<exists>er. uploadReports key now up s =
                   emit [HttpUpload (syncMethod s) (poopReports s), ConsoleError er] s)) \<and>
         (syncMethod s = Firebase \<and> reportsRef s \<longrightarrow>
            uploadReports key now (Thrown e2) s =
              emit [FirebaseUpdate (assign_updates key (poopReports s) Map.empty), ConsoleError e2] s) \<and>
         same_control s (downloadReports date now down s) \<and>
         same_control s (uploadReports key now up s) \<and>
         poopReports (uploadReports key now up s) = poopReports s \<and>
         (\<forall>h \<in> set (liveTimers s).
            timer_tick h date now' down' (downloadReports date now down s) =
              downloadReports date now' down' (downloadReports date now down s))"
proof -
  have a: "syncMethod s = Simple \<or> syncMethod s = GitHubGist \<or> syncMethod s = Custom \<longrightarrow>
           (\<exists>er. downloadReports date now down s =
                   emit [HttpDownload (syncMethod s), ConsoleError er] s) \<and>
           (\<exists>er. uploadReports key now up s =
                   emit [HttpUpload (syncMethod s) (poopReports s), ConsoleError er] s)"
    using assms by (auto simp: transfer_defs)
  have b: "syncMethod s = Firebase \<and> reportsRef s \<longrightarrow>
            uploadReports key now (Thrown e2) s =
              emit [FirebaseUpdate (assign_updates key (poopReports s) Map.empty), ConsoleError e2] s"
    using assms(1) by (simp add: transfer_defs)
  have c: "same_control s (downloadReports date now down s)"
    by (rule downloadReports_frame)
  have d: "same_control s (uploadReports key now up s) \<and>
      poopReports (uploadReports key now up s) = poopReports s"
    by (rule uploadReports_frame)
  have "liveTimers (downloadReports date now down s) = liveTimers s"
    using c by (simp add: same_control_def)
  then have e: "\<forall>h \<in> set (liveTimers s).
            timer_tick h date now' down' (downloadReports date now down s) =
              downloadReports date now' down' (downloadReports date now down s)"
    by (simp add: timer_tick_def)
  show ?thesis using a b c d e by blast
qed

theorem transfer_failure_is_contained_witness:
  "(\<exists>er. downloadReports millis_date 1 NotOk gist_engine =
          emit [HttpDownload GitHubGist, ConsoleError er] gist_engine) \<and>
   (\<exists>er. uploadReports string_key 1 NotOk gist_engine =
          emit [HttpUpload GitHubGist [first_copy], ConsoleError er] gist_engine) \<and>
   timer_tick 1 millis_date 2 (Ok None) (downloadReports millis_date 1 NotOk gist_engine) =
     downloadReports millis_date 2 (Ok None) (downloadReports millis_date 1 NotOk gist_engine) \<and>
   uploadReports string_key 1 (Thrown ErrorEvent) firebase_engine =
     emit [FirebaseUpdate Map.empty, ConsoleError ErrorEvent] firebase_engine"
proof -
  have f1: "syncEnabled firebase_engine" using firebase_engine_eval by simp
  have f2: "(NotOk :: report list option reply) = NotOk \<or> NotOk = Thrown ErrorEvent" by simp
  have f3: "(Thrown ErrorEvent :: unit reply) = NotOk \<or> Thrown ErrorEvent = Thrown ErrorEvent"
    by simp
  have f4: "syncMethod firebase_engine = Firebase \<and> reportsRef firebase_engine"
    by (simp add: firebase_engine_def firebase_config_def life_defs transfer_defs)
  have f5: "poopReports firebase_engine = []"
    by (simp add: firebase_engine_def firebase_config_def life_defs transfer_defs)
  have fb: "uploadReports string_key 1 (Thrown ErrorEvent) firebase_engine =
      emit [FirebaseUpdate Map.empty, ConsoleError ErrorEvent] firebase_engine"
    using transfer_failure_is_contained [OF f1 f2 f3, of millis_date 1 string_key 2 "Ok None",
        THEN conjunct2, THEN conjunct1, THEN mp, OF f4] f5
    by simp
  have h1: "syncEnabled gist_engine" using gist_engine_eval by simp
  have h2: "(NotOk :: report list option reply) = NotOk \<or> NotOk = Thrown ErrorEvent" by simp
  have h3: "(NotOk :: unit reply) = NotOk \<or> NotOk = Thrown ErrorEvent" by simp
  show ?thesis
    using transfer_failure_is_contained [OF h1 h2 h3, of millis_date 1 string_key 2 "Ok None"]
      gist_engine_eval fb
    by simp
qed


text \<open>
  The claim as worded fails on a gist engine whose download gets a reply that is not ok:
  the error goes to the console, and no error is shown.
\<close>

theorem download_failure_shows_no_error:
  "syncEnabled gist_engine \<and>
   effects (downloadReports millis_date 1 NotOk gist_engine) =
     [HttpDownload GitHubGist, HttpDownload GitHubGist,
      ConsoleError (Error ''Failed to download from Gist'')] \<and>
   filter is_ui_error (effects (downloadReports millis_date 1 NotOk gist_engine)) = []"
  using gist_engine_eval by (simp add: transfer_defs)


lemma http_uploads_append [simp]: "http_uploads (xs @ ys) = http_uploads xs @ http_uploads ys"
  by (simp add: http_uploads_def map_filter_def)

lemma firebase_updates_append [simp]:
  "firebase_updates (xs @ ys) = firebase_updates xs @ firebase_updates ys"
  by (simp add: firebase_updates_def map_filter_def)

lemma http_uploads_Nil [simp]: "http_uploads [] = []"
  by (simp add: http_uploads_def map_filter_def)

lemma http_uploads_Cons [simp]:
  "http_uploads (e # es) =
     (case http_upload e of None \<Rightarrow> http_uploads es | Some rs \<Rightarrow> rs # http_uploads es)"
  by (simp add: http_uploads_def map_filter_def split: option.splits)

lemma firebase_updates_Nil [simp]: "firebase_updates [] = []"
  by (simp add: firebase_updates_def map_filter_def)

lemma firebase_updates_Cons [simp]:
  "firebase_updates (e # es) =
     (case firebase_update e of None \<Rightarrow> firebase_updates es | Some u \<Rightarrow> u # firebase_updates es)"
  by (simp add: firebase_updates_def map_filter_def split: option.splits)

lemma find_first_append_case:
  "find_first P (xs @ ys) =
     (case find_first P xs of None \<Rightarrow> find_first P ys | Some x \<Rightarrow> Some x)"
  by (induction xs) auto

lemma assign_updates_lookup:
  "assign_updates key rs u k =
     (case find_first (\<lambda>r. key (rid r) = k) (rev rs) of None \<Rightarrow> u k | Some r \<Rightarrow> Some r)"
  by (induction rs arbitrary: u) (auto simp: find_first_append_case split: option.splits)

lemma assign_updates_last:
  "assign_updates key rs Map.empty k = find_first (\<lambda>r. key (rid r) = k) (rev rs)"
  by (simp add: assign_updates_lookup split: option.splits)

lemma find_first_own:
  "distinct (map f xs) \<Longrightarrow> r \<in> set xs \<Longrightarrow> find_first (\<lambda>x. f x = f r) xs = Some r"
proof (induction xs)
  case Nil
  then show ?case by simp
next
  case (Cons a xs)
  show ?case
  proof (cases "a = r")
    case True
    then show ?thesis by simp
  next
    case False
    then have r: "r \<in> set xs" using Cons.prems by simp
    then have "f a \<noteq> f r" using Cons.prems(1) by (auto simp: image_iff)
    then show ?thesis using Cons r by simp
  qed
qed

lemma assign_updates_dom:
  "dom (assign_updates key rs Map.empty) = (\<lambda>r. key (rid r)) ` set rs"
proof -
  have "\<And>k. (assign_updates key rs Map.empty k \<noteq> None) = (k \<in> (\<lambda>r. key (rid r)) ` set rs)"
    by (auto simp: assign_updates_last find_first_None_iff)
  then show ?thesis by (auto simp: dom_def)
qed

lemma assign_updates_ran:
  "ran (assign_updates key rs Map.empty) \<subseteq> set rs"
  using find_first_Some by (fastforce simp: ran_def assign_updates_last)

lemma assign_updates_distinct:
  assumes "distinct (map (\<lambda>r. key (rid r)) rs)"
  shows "(\<forall>r\<in>set rs. assign_updates key rs Map.empty (key (rid r)) = Some r) \<and>
         ran (assign_updates key rs Map.empty) = set rs"
proof -
  have d: "distinct (map (\<lambda>r. key (rid r)) (rev rs))"
    using assms by (simp add: rev_map [symmetric])
  have each: "\<forall>r\<in>set rs. assign_updates key rs Map.empty (key (rid r)) = Some r"
    using find_first_own [OF d] by (simp add: assign_updates_last)
  then have "set rs \<subseteq> ran (assign_updates key rs Map.empty)"
    by (auto simp: ran_def)
  then show ?thesis using each assign_updates_ran [of key rs] by blast
qed

lemma repeated_id_engine_eval:
  "syncEnabled repeated_id_engine \<and> syncMethod repeated_id_engine = Firebase \<and>
   reportsRef repeated_id_engine \<and> poopReports repeated_id_engine = [first_copy, second_copy] \<and>
   effects repeated_id_engine = [FirebaseListen]"
  by (simp add: repeated_id_engine_def firebase_config_def life_defs transfer_defs)

lemma two_ids_engine_eval:
  "syncEnabled two_ids_engine \<and> syncMethod two_ids_engine = Firebase \<and>
   reportsRef two_ids_engine \<and>
   poopReports two_ids_engine = [mk_report ''b'' 1 ''active'', first_copy] \<and>
   effects two_ids_engine = [FirebaseListen]"
  by (simp add: two_ids_engine_def firebase_config_def life_defs transfer_defs)

lemma string_key_copies:
  "string_key (rid first_copy) = ''a''" "string_key (rid second_copy) = ''a''"
  "string_key (rid (mk_report ''b'' 1 ''active'')) = ''b''"
  by (simp_all add: string_key_def example_defs rid_def)

text \<open>
  Claim C6, the push is a full snapshot. The claim has every upload send the complete
  local record set. The three fetch-based uploads do: the \<^verbatim>\<open>reports\<close> array of the
  request is the whole local array. The Firebase upload sends one object keyed by report
  id, by design, and an object holds one record per key. What holds, whatever the state:
  the fetch-based uploads that \<^verbatim>\<open>uploadReports\<close> adds to those already made are one
  upload of the whole local array when sync is enabled with such a method, and none
  otherwise; the Firebase updates it adds are one object when sync is enabled with
  Firebase and the reference is set, and none otherwise; that object holds, under each
  key, the last local record whose id has that key, its keys are the keys of the local
  ids, and every record in it is a local record; when no two local records have the same
  key it holds every local record, each under its own key; and \<^verbatim>\<open>syncNewReport\<close> is
  this same upload whatever report it is given, so what it sends is the local array as it
  is when it runs.
\<close>

theorem upload_is_full_snapshot:
  "http_uploads (effects (uploadReports key now resp s)) =
     http_uploads (effects s) @
       (if syncEnabled s \<and>
           (syncMethod s = Simple \<or> syncMethod s = GitHubGist \<or> syncMethod s = Custom)
        then [poopReports s] else []) \<and>
   firebase_updates (effects (uploadReports key now resp s)) =
     firebase_updates (effects s) @
       (if syncEnabled s \<and> syncMethod s = Firebase \<and> reportsRef s
        then [assign_updates key (poopReports s) Map.empty] else []) \<and>
   (\<forall>k. assign_updates key (poopReports s) Map.empty k =
          find_first (\<lambda>r. key (rid r) = k) (rev (poopReports s))) \<and>
   dom (assign_updates key (poopReports s) Map.empty) =
     (\<lambda>r. key (rid r)) ` set (poopReports s) \<and>
   ran (assign_updates key (poopReports s) Map.empty) \<subseteq> set (poopReports s) \<and>
   (distinct (map (\<lambda>r. key (rid r)) (poopReports s)) \<longrightarrow>
      ran (assign_updates key (poopReports s) Map.empty) = set (poopReports s) \<and>
      (\<forall>r\<in>set (poopReports s).
         assign_updates key (poopReports s) Map.empty (key (rid r)) = Some r)) \<and>
   syncNewReport key n now resp s = uploadReports key now resp s"
proof -
  have a: "http_uploads (effects (uploadReports key now resp s)) =
     http_uploads (effects s) @
       (if syncEnabled s \<and>
           (syncMethod s = Simple \<or> syncMethod s = GitHubGist \<or> syncMethod s = Custom)
        then [poopReports s] else [])"
    by (cases "syncMethod s"; cases resp) (simp_all add: transfer_defs)
  have b: "firebase_updates (effects (uploadReports key now resp s)) =
     firebase_updates (effects s) @
       (if syncEnabled s \<and> syncMethod s = Firebase \<and> reportsRef s
        then [assign_updates key (poopReports s) Map.empty] else [])"
    by (cases "syncMethod s"; cases resp) (simp_all add: transfer_defs)
  have c: "\<forall>k. assign_updates key (poopReports s) Map.empty k =
          find_first (\<lambda>r. key (rid r) = k) (rev (poopReports s))"
    by (simp add: assign_updates_last)
  have d: "dom (assign_updates key (poopReports s) Map.empty) =
     (\<lambda>r. key (rid r)) ` set (poopReports s)"
    by (rule assign_updates_dom)
  have e: "ran (assign_updates key (poopReports s) Map.empty) \<subseteq> set (poopReports s)"
    by (rule assign_updates_ran)
  have f: "distinct (map (\<lambda>r. key (rid r)) (poopReports s)) \<longrightarrow>
      ran (assign_updates key (poopReports s) Map.empty) = set (poopReports s) \<and>
      (\<forall>r\<in>set (poopReports s).
         assign_updates key (poopReports s) Map.empty (key (rid r)) = Some r)"
    using assign_updates_distinct [of key "poopReports s"] by blast
  have g: "syncNewReport key n now resp s = uploadReports key now resp s"
    by (simp add: syncNewReport_def uploadReports_def)
  show ?thesis using a b c d e f g by blast
qed

theorem upload_is_full_snapshot_witness:
  "http_uploads (effects (uploadReports string_key 1 (Ok ()) gist_engine)) = [[first_copy]] \<and>
   firebase_updates (effects (uploadReports string_key 1 (Ok ()) two_ids_engine)) =
     [assign_updates string_key [mk_report ''b'' 1 ''active'', first_copy] Map.empty] \<and>
   ran (assign_updates string_key [mk_report ''b'' 1 ''active'', first_copy] Map.empty) =
     {mk_report ''b'' 1 ''active'', first_copy} \<and>
   assign_updates string_key [mk_report ''b'' 1 ''active'', first_copy] Map.empty ''a'' =
     Some first_copy"
proof -
  have d: "distinct (map (\<lambda>r. string_key (rid r)) (poopReports two_ids_engine))"
    using two_ids_engine_eval by (simp add: string_key_copies)
  note T = upload_is_full_snapshot [of string_key 1 "Ok ()" two_ids_engine first_copy]
  note G = upload_is_full_snapshot [of string_key 1 "Ok ()" gist_engine first_copy]
  have 1: "http_uploads (effects (uploadReports string_key 1 (Ok ()) gist_engine)) = [[first_copy]]"
    using G [THEN conjunct1] gist_engine_eval by simp
  have 2: "firebase_updates (effects (uploadReports string_key 1 (Ok ()) two_ids_engine)) =
     [assign_updates string_key [mk_report ''b'' 1 ''active'', first_copy] Map.empty]"
    using T [THEN conjunct2, THEN conjunct1] two_ids_engine_eval by simp
  have 3: "ran (assign_updates string_key (poopReports two_ids_engine) Map.empty) =
        set (poopReports two_ids_engine) \<and>
      (\<forall>r\<in>set (poopReports two_ids_engine).
         assign_updates string_key (poopReports two_ids_engine) Map.empty (string_key (rid r)) =
           Some r)"
    using T [THEN conjunct2, THEN conjunct2, THEN conjunct2, THEN conjunct2, THEN conjunct2,
        THEN conjunct1, THEN mp, OF d] .
  have p: "poopReports two_ids_engine = [mk_report ''b'' 1 ''active'', first_copy]"
    using two_ids_engine_eval by simp
  have 4: "ran (assign_updates string_key [mk_report ''b'' 1 ''active'', first_copy] Map.empty) =
     {mk_report ''b'' 1 ''active'', first_copy}"
    using 3 unfolding p by simp
  have "assign_updates string_key [mk_report ''b'' 1 ''active'', first_copy] Map.empty
      (string_key (rid first_copy)) = Some first_copy"
    using 3 unfolding p by simp
  then have 5: "assign_updates string_key [mk_report ''b'' 1 ''active'', first_copy] Map.empty ''a'' =
     Some first_copy"
    by (simp only: string_key_copies)
  show ?thesis using 1 2 4 5 by (simp only: simp_thms)
qed


text \<open>
  The claim as worded fails on a Firebase engine whose local array holds an id twice:
  the object given to the reference holds the second record alone, and the first local
  record is not in the payload.
\<close>

theorem firebase_upload_drops_repeated_id:
  "syncEnabled repeated_id_engine \<and>
   poopReports repeated_id_engine = [first_copy, second_copy] \<and>
   effects (uploadReports string_key 1 (Ok ()) repeated_id_engine) =
     [FirebaseListen, FirebaseUpdate [''a'' \<mapsto> second_copy]] \<and>
   ran [''a'' \<mapsto> second_copy] = {second_copy} \<and>
   first_copy \<notin> ran [''a'' \<mapsto> second_copy]"
  using repeated_id_engine_eval copies_differ
  by (simp add: transfer_defs string_key_copies)


lemma startAutoSync_timers:
  assumes "timer_inv s"
  shows "liveTimers (startAutoSync date now resp s) = [nextTimer s] \<and>
         syncInterval (startAutoSync date now resp s) = Some (nextTimer s) \<and>
         nextTimer (startAutoSync date now resp s) = nextTimer s + 1 \<and>
         syncEnabled (startAutoSync date now resp s) = syncEnabled s \<and>
         syncMethod (startAutoSync date now resp s) = syncMethod s \<and>
         valueListeners (startAutoSync date now resp s) = valueListeners s \<and>
         timer_inv (startAutoSync date now resp s)"
proof -
  let ?s1 = "case syncInterval s of None \<Rightarrow> s | Some h \<Rightarrow> if h \<noteq> 0 then clearInterval h s else s"
  have s1: "liveTimers ?s1 = [] \<and> nextTimer ?s1 = nextTimer s \<and> syncEnabled ?s1 = syncEnabled s \<and>
      syncMethod ?s1 = syncMethod s \<and> valueListeners ?s1 = valueListeners s"
    using assms by (auto simp: timer_inv_def clearInterval_def split: option.splits)
  have "same_control ?s1 (downloadReports date now resp ?s1)"
    by (rule downloadReports_frame)
  then show ?thesis
    using s1 assms by (simp add: startAutoSync_def Let_def same_control_def timer_inv_def)
qed

lemma adapter_init_ok:
  assumes "(case syncMethod s of
              Firebase \<Rightarrow> Some (initFirebaseSync sdk s)
            | GitHubGist \<Rightarrow> Some (initGitHubGistSync gist s)
            | Custom \<Rightarrow> Some (initCustomSync s)
            | Simple \<Rightarrow> Some (initSimpleSync s)
            | Unrecognised \<Rightarrow> None) = Some (Inr s1)"
  shows "syncMethod s1 = syncMethod s \<and> syncInterval s1 = syncInterval s \<and>
         liveTimers s1 = liveTimers s \<and> nextTimer s1 = nextTimer s \<and>
         valueListeners s1 = valueListeners s + (if syncMethod s = Firebase then 1 else 0)"
  using assms
  by (cases "syncMethod s")
     (auto simp: initFirebaseSync_def initGitHubGistSync_def initCustomSync_def initSimpleSync_def
        createGist_def saveSyncConfig_def emit_def Let_def
        split: if_splits option.splits reply.splits)

lemma adapter_init_failed:
  assumes "(case syncMethod s of
              Firebase \<Rightarrow> Some (initFirebaseSync sdk s)
            | GitHubGist \<Rightarrow> Some (initGitHubGistSync gist s)
            | Custom \<Rightarrow> Some (initCustomSync s)
            | Simple \<Rightarrow> Some (initSimpleSync s)
            | Unrecognised \<Rightarrow> None) = Some (Inl (e, s1))"
  shows "syncEnabled s1 = syncEnabled s \<and> syncInterval s1 = syncInterval s \<and>
         liveTimers s1 = liveTimers s \<and> poopReports s1 = poopReports s \<and>
         valueListeners s1 = valueListeners s \<and>
         (effects s1 = effects s \<or> effects s1 = effects s @ [CreateGist])"
  using assms
  by (cases "syncMethod s")
     (auto simp: initFirebaseSync_def initGitHubGistSync_def initCustomSync_def initSimpleSync_def
        createGist_def saveSyncConfig_def emit_def Let_def
        split: if_splits option.splits reply.splits)

lemma reconfigured_eval:
  "fst (initializeSync None NotOk millis_date 0 NotOk reconfigured_engine) = False \<and>
   syncEnabled (snd (initializeSync None NotOk millis_date 0 NotOk reconfigured_engine)) \<and>
   liveTimers (snd (initializeSync None NotOk millis_date 0 NotOk reconfigured_engine)) = [1]"
  by (simp add: reconfigured_engine_def custom_engine_def custom_config_def life_defs transfer_defs
      Let_def)


text \<open>
  Claim C7, the poll timer of the push-based variant. The claim has no poll timer live
  for Firebase. \<^verbatim>\<open>initializeSync\<close> calls \<^verbatim>\<open>startAutoSync\<close> for every method, so the
  interval is set for Firebase too; what is suppressed is the download, since
  \<^verbatim>\<open>downloadReports\<close> returns at once for Firebase. What holds, for an engine that keeps
  at most the one interval it remembers: when \<^verbatim>\<open>initializeSync\<close> returns true, sync is
  enabled, exactly one interval is live and it is the remembered one, for every method;
  Firebase has registered one more listener and the other methods none; and for Firebase
  a firing of the timer leaves the state as it is.
\<close>

theorem entering_enabled_starts_one_timer:
  assumes "timer_inv s" and "initializeSync sdk gist date now resp s = (True, s')"
  shows "syncEnabled s' \<and> syncMethod s' = syncMethod s \<and>
         liveTimers s' = [nextTimer s] \<and> syncInterval s' = Some (nextTimer s) \<and>
         valueListeners s' = valueListeners s + (if syncMethod s = Firebase then 1 else 0) \<and>
         (syncMethod s = Firebase \<longrightarrow> timer_tick h date' now' resp' s' = s') \<and>
         timer_inv s'"
proof -
  let ?init = "case syncMethod s of
              Firebase \<Rightarrow> Some (initFirebaseSync sdk s)
            | GitHubGist \<Rightarrow> Some (initGitHubGistSync gist s)
            | Custom \<Rightarrow> Some (initCustomSync s)
            | Simple \<Rightarrow> Some (initSimpleSync s)
            | Unrecognised \<Rightarrow> None"
  obtain s1 where i: "?init = Some (Inr s1)"
    and s': "s' = startAutoSync date now resp (s1\<lparr>syncEnabled := True\<rparr>)"
    using assms(2) by (auto simp: initializeSync_def split: option.splits sum.splits)
  let ?s2 = "s1\<lparr>syncEnabled := True\<rparr>"
  have f: "syncMethod s1 = syncMethod s \<and> syncInterval s1 = syncInterval s \<and>
         liveTimers s1 = liveTimers s \<and> nextTimer s1 = nextTimer s \<and>
         valueListeners s1 = valueListeners s + (if syncMethod s = Firebase then 1 else 0)"
    using adapter_init_ok [OF i] .
  then have inv: "timer_inv ?s2" using assms(1) by (simp add: timer_inv_def)
  have t: "liveTimers s' = [nextTimer ?s2] \<and> syncInterval s' = Some (nextTimer ?s2) \<and>
         nextTimer s' = nextTimer ?s2 + 1 \<and> syncEnabled s' = syncEnabled ?s2 \<and>
         syncMethod s' = syncMethod ?s2 \<and> valueListeners s' = valueListeners ?s2 \<and> timer_inv s'"
    unfolding s' using startAutoSync_timers [OF inv] .
  have "syncMethod s = Firebase \<longrightarrow> timer_tick h date' now' resp' s' = s'"
    using t f by (simp add: timer_tick_def downloadReports_def)
  then show ?thesis using t f by simp
qed

theorem entering_enabled_starts_one_timer_witness:
  "syncEnabled firebase_engine \<and> liveTimers firebase_engine = [1] \<and>
   syncInterval firebase_engine = Some 1 \<and> valueListeners firebase_engine = 1 \<and>
   timer_tick 1 millis_date 30 NotOk firebase_engine = firebase_engine"
proof -
  let ?s = "loadSyncConfig firebase_config (fresh [])"
  have h1: "timer_inv ?s" by (simp add: timer_inv_def life_defs)
  have h2: "initializeSync None NotOk millis_date 0 NotOk ?s = (True, firebase_engine)"
    by (simp add: firebase_engine_def firebase_config_def life_defs transfer_defs)
  have m: "syncMethod ?s = Firebase" "nextTimer ?s = 1" "valueListeners ?s = 0"
    by (simp_all add: firebase_config_def life_defs)
  show ?thesis
    using entering_enabled_starts_one_timer [OF h1 h2, of 1 millis_date 30 NotOk] m by simp
qed


text \<open>
  The claim as worded fails on the engine the constructor makes of a Firebase
  configuration: it is enabled, has its one listener, and one interval is live.
\<close>

theorem firebase_engine_has_a_poll_timer:
  "syncEnabled firebase_engine \<and> syncMethod firebase_engine = Firebase \<and>
   valueListeners firebase_engine = 1 \<and> liveTimers firebase_engine = [1] \<and>
   liveTimers firebase_engine \<noteq> []"
  using firebase_engine_eval by simp


text \<open>
  Claim C8, a failed initialization. The claim has the engine end up disabled whenever
  the adapter cannot be set up. The \<^verbatim>\<open>catch\<close> of \<^verbatim>\<open>initializeSync\<close> reports the error
  and returns false; it does not touch \<^verbatim>\<open>syncEnabled\<close> or the timer, and nothing in the
  class ever sets \<^verbatim>\<open>syncEnabled\<close> back to false. What holds: when \<^verbatim>\<open>initializeSync\<close>
  returns false for a configured method, the switch, the timer, the listeners and the
  local array are as they were, no timer was started, and the error went to the console
  and to \<^verbatim>\<open>showSyncError\<close> with its message; the gist method with neither a gist id nor
  a token fails so, with the message that names the token; and the engine the
  constructor makes is disabled, with no timer, when its initialization fails.
\<close>

theorem failed_initialization_changes_nothing:
  "(initializeSync sdk gist date now resp s = (False, s') \<and> syncMethod s \<noteq> Unrecognised \<longrightarrow>
      syncEnabled s' = syncEnabled s \<and> syncInterval s' = syncInterval s \<and>
      liveTimers s' = liveTimers s \<and> poopReports s' = poopReports s \<and>
      valueListeners s' = valueListeners s \<and>
      (\<exists>e pre. effects s' = effects s @ pre @ [ConsoleError e, ShowSyncError (message e)])) \<and>
   (syncMethod s = GitHubGist \<and> \<not> truthy (cfg_gistId (syncConfig s)) \<and>
    \<not> truthy (cfg_githubToken (syncConfig s)) \<longrightarrow>
      initializeSync sdk gist date now resp s =
        (False,
         emit [ConsoleError (Error ''GitHub token required to create sync storage''),
               ShowSyncError (Some ''GitHub token required to create sync storage'')]
           (s\<lparr>gistId := cfg_gistId (syncConfig s),
              githubToken := cfg_githubToken (syncConfig s)\<rparr>))) \<and>
   (\<not> fst (initializeSync sdk gist date now resp (loadSyncConfig stored (fresh localReports))) \<longrightarrow>
      \<not> syncEnabled (BackendSync localReports stored sdk gist date now resp) \<and>
      syncInterval (BackendSync localReports stored sdk gist date now resp) = None \<and>
      liveTimers (BackendSync localReports stored sdk gist date now resp) = [])"
proof -
  let ?init = "\<lambda>s. case syncMethod s of
              Firebase \<Rightarrow> Some (initFirebaseSync sdk s)
            | GitHubGist \<Rightarrow> Some (initGitHubGistSync gist s)
            | Custom \<Rightarrow> Some (initCustomSync s)
            | Simple \<Rightarrow> Some (initSimpleSync s)
            | Unrecognised \<Rightarrow> None"
  have gen: "\<And>s s'. initializeSync sdk gist date now resp s = (False, s') \<Longrightarrow>
      syncMethod s \<noteq> Unrecognised \<Longrightarrow>
      syncEnabled s' = syncEnabled s \<and> syncInterval s' = syncInterval s \<and>
      liveTimers s' = liveTimers s \<and> poopReports s' = poopReports s \<and>
      valueListeners s' = valueListeners s \<and>
      (\<exists>e pre. effects s' = effects s @ pre @ [ConsoleError e, ShowSyncError (message e)])"
  proof -
    fix s s' :: engine
    assume r: "initializeSync sdk gist date now resp s = (False, s')"
      and m: "syncMethod s \<noteq> Unrecognised"
    have "?init s \<noteq> None" using m by (cases "syncMethod s") simp_all
    then obtain e s1 where i: "?init s = Some (Inl (e, s1))"
      and s': "s' = emit [ConsoleError e, ShowSyncError (message e)] s1"
      using r by (auto simp: initializeSync_def split: option.splits sum.splits)
    have f: "syncEnabled s1 = syncEnabled s \<and> syncInterval s1 = syncInterval s \<and>
         liveTimers s1 = liveTimers s \<and> poopReports s1 = poopReports s \<and>
         valueListeners s1 = valueListeners s \<and>
         (effects s1 = effects s \<or> effects s1 = effects s @ [CreateGist])"
      using adapter_init_failed [OF i] .
    then have "effects s' = effects s @ [] @ [ConsoleError e, ShowSyncError (message e)] \<or>
        effects s' = effects s @ [CreateGist] @ [ConsoleError e, ShowSyncError (message e)]"
      using s' by (auto simp: emit_def)
    then have "\<exists>e pre. effects s' = effects s @ pre @ [ConsoleError e, ShowSyncError (message e)]"
      by blast
    then show "syncEnabled s' = syncEnabled s \<and> syncInterval s' = syncInterval s \<and>
      liveTimers s' = liveTimers s \<and> poopReports s' = poopReports s \<and>
      valueListeners s' = valueListeners s \<and>
      (\<exists>e pre. effects s' = effects s @ pre @ [ConsoleError e, ShowSyncError (message e)])"
      using f s' by (simp add: emit_def)
  qed
  have tok: "syncMethod s = GitHubGist \<and> \<not> truthy (cfg_gistId (syncConfig s)) \<and>
    \<not> truthy (cfg_githubToken (syncConfig s)) \<longrightarrow>
      initializeSync sdk gist date now resp s =
        (False,
         emit [ConsoleError (Error ''GitHub token required to create sync storage''),
               ShowSyncError (Some ''GitHub token required to create sync storage'')]
           (s\<lparr>gistId := cfg_gistId (syncConfig s),
              githubToken := cfg_githubToken (syncConfig s)\<rparr>))"
    by (simp add: initializeSync_def initGitHubGistSync_def Let_def)
  have ctor: "\<not> fst (initializeSync sdk gist date now resp (loadSyncConfig stored (fresh localReports))) \<longrightarrow>
      \<not> syncEnabled (BackendSync localReports stored sdk gist date now resp) \<and>
      syncInterval (BackendSync localReports stored sdk gist date now resp) = None \<and>
      liveTimers (BackendSync localReports stored sdk gist date now resp) = []"
  proof
    let ?s0 = "loadSyncConfig stored (fresh localReports)"
    assume n: "\<not> fst (initializeSync sdk gist date now resp ?s0)"
    have s0: "\<not> syncEnabled ?s0 \<and> syncInterval ?s0 = None \<and> liveTimers ?s0 = []"
      by (simp add: loadSyncConfig_def fresh_def)
    show "\<not> syncEnabled (BackendSync localReports stored sdk gist date now resp) \<and>
      syncInterval (BackendSync localReports stored sdk gist date now resp) = None \<and>
      liveTimers (BackendSync localReports stored sdk gist date now resp) = []"
    proof (cases "syncMethod ?s0 = Unrecognised")
      case True
      then show ?thesis using s0 by (simp add: BackendSync_def Let_def)
    next
      case False
      obtain s' where r: "initializeSync sdk gist date now resp ?s0 = (False, s')"
        using n by (cases "initializeSync sdk gist date now resp ?s0") auto
      from gen [OF r False] s0 r False show ?thesis
        by (simp add: BackendSync_def Let_def)
    qed
  qed
  show ?thesis using gen [of s s'] tok ctor by blast
qed

theorem failed_initialization_changes_nothing_witness:
  "initializeSync None NotOk millis_date 0 NotOk
      (loadSyncConfig (no_config\<lparr>cfg_method := Some GitHubGist\<rparr>) (fresh [])) =
     (False,
      emit [ConsoleError (Error ''GitHub token required to create sync storage''),
            ShowSyncError (Some ''GitHub token required to create sync storage'')]
        (loadSyncConfig (no_config\<lparr>cfg_method := Some GitHubGist\<rparr>) (fresh []))) \<and>
   \<not> syncEnabled (BackendSync [] (no_config\<lparr>cfg_method := Some GitHubGist\<rparr>)
        None NotOk millis_date 0 NotOk) \<and>
   liveTimers (BackendSync [] (no_config\<lparr>cfg_method := Some GitHubGist\<rparr>)
        None NotOk millis_date 0 NotOk) = [] \<and>
   (\<exists>e pre.
      effects (emit [ConsoleError (Error ''GitHub token required to create sync storage''),
            ShowSyncError (Some ''GitHub token required to create sync storage'')]
        (loadSyncConfig (no_config\<lparr>cfg_method := Some GitHubGist\<rparr>) (fresh []))) =
      effects (loadSyncConfig (no_config\<lparr>cfg_method := Some GitHubGist\<rparr>) (fresh [])) @
        pre @ [ConsoleError e, ShowSyncError (message e)])"
proof -
  let ?c = "no_config\<lparr>cfg_method := Some GitHubGist\<rparr>"
  let ?s = "loadSyncConfig ?c (fresh [])"
  have h: "syncMethod ?s = GitHubGist \<and> \<not> truthy (cfg_gistId (syncConfig ?s)) \<and>
      \<not> truthy (cfg_githubToken (syncConfig ?s))"
    by (simp add: life_defs)
  have same: "?s\<lparr>gistId := cfg_gistId (syncConfig ?s),
      githubToken := cfg_githubToken (syncConfig ?s)\<rparr> = ?s"
    by (simp add: life_defs)
  note T = failed_initialization_changes_nothing
      [of None NotOk millis_date 0 NotOk ?s ?s ?c "[]"]
  have r0: "initializeSync None NotOk millis_date 0 NotOk ?s =
      (False,
       emit [ConsoleError (Error ''GitHub token required to create sync storage''),
             ShowSyncError (Some ''GitHub token required to create sync storage'')]
         (?s\<lparr>gistId := cfg_gistId (syncConfig ?s),
             githubToken := cfg_githubToken (syncConfig ?s)\<rparr>))"
    using T [THEN conjunct2, THEN conjunct1, THEN mp, OF h] .
  have r: "initializeSync None NotOk millis_date 0 NotOk ?s =
      (False,
       emit [ConsoleError (Error ''GitHub token required to create sync storage''),
             ShowSyncError (Some ''GitHub token required to create sync storage'')] ?s)"
    using r0 by (simp only: same)
  then have n: "\<not> fst (initializeSync None NotOk millis_date 0 NotOk ?s)"
    by (simp only: fst_conv not_False_eq_True)
  have "\<not> syncEnabled (BackendSync [] ?c None NotOk millis_date 0 NotOk) \<and>
      syncInterval (BackendSync [] ?c None NotOk millis_date 0 NotOk) = None \<and>
      liveTimers (BackendSync [] ?c None NotOk millis_date 0 NotOk) = []"
    using T [THEN conjunct2, THEN conjunct2, THEN mp, OF n] .
  then have ctor: "\<not> syncEnabled (BackendSync [] ?c None NotOk millis_date 0 NotOk) \<and>
      liveTimers (BackendSync [] ?c None NotOk millis_date 0 NotOk) = []"
    by (simp only: simp_thms)
  let ?s' = "emit [ConsoleError (Error ''GitHub token required to create sync storage''),
             ShowSyncError (Some ''GitHub token required to create sync storage'')] ?s"
  have g: "initializeSync None NotOk millis_date 0 NotOk ?s = (False, ?s') \<and>
      syncMethod ?s \<noteq> Unrecognised"
    using r h by simp
  have "\<exists>e pre. effects ?s' = effects ?s @ pre @ [ConsoleError e, ShowSyncError (message e)]"
    using failed_initialization_changes_nothing
      [of None NotOk millis_date 0 NotOk ?s ?s' ?c "[]", THEN conjunct1, THEN mp, OF g]
    by (elim conjE)
  then show ?thesis using r ctor by (simp only: simp_thms)
qed


text \<open>
  The claim as worded fails on a running engine that is set up anew, as
  \<^verbatim>\<open>setupGitHubSync\<close> does it, when the gist cannot be created: \<^verbatim>\<open>initializeSync\<close>
  returns false and the engine is still enabled, its interval still live.
\<close>

theorem failed_reinitialization_stays_enabled:
  "syncEnabled reconfigured_engine \<and>
   fst (initializeSync None NotOk millis_date 0 NotOk reconfigured_engine) = False \<and>
   syncEnabled (snd (initializeSync None NotOk millis_date 0 NotOk reconfigured_engine)) \<and>
   liveTimers (snd (initializeSync None NotOk millis_date 0 NotOk reconfigured_engine)) = [1]"
  using reconfigured_eval
  by (simp add: reconfigured_engine_def custom_engine_def custom_config_def life_defs transfer_defs
      Let_def)


text \<open>
  Claim C9, stopping and resuming. The claim has \<^verbatim>\<open>stopAutoSync\<close> close the real-time
  subscription. It clears the interval and nothing else: the class never removes the
  listener it registered. What holds: stopping twice is stopping once; stopping with no
  timer remembered changes nothing; stopping leaves the listeners and the switch alone;
  and for an engine that keeps at most the one interval it remembers, stopping leaves no
  interval live, and \<^verbatim>\<open>startAutoSync\<close> leaves exactly one interval live, the new one,
  and registers no listener.
\<close>

theorem stop_is_idempotent:
  "stopAutoSync (stopAutoSync s) = stopAutoSync s \<and>
   (syncInterval s = None \<longrightarrow> stopAutoSync s = s) \<and>
   valueListeners (stopAutoSync s) = valueListeners s \<and>
   syncEnabled (stopAutoSync s) = syncEnabled s \<and>
   (timer_inv s \<longrightarrow>
      liveTimers (stopAutoSync s) = [] \<and> syncInterval (stopAutoSync s) = None \<and>
      liveTimers (startAutoSync date now resp s) = [nextTimer s] \<and>
      syncInterval (startAutoSync date now resp s) = Some (nextTimer s) \<and>
      valueListeners (startAutoSync date now resp s) = valueListeners s)"
proof -
  have a: "stopAutoSync (stopAutoSync s) = stopAutoSync s"
    by (simp add: stopAutoSync_def clearInterval_def split: option.splits)
  have b: "syncInterval s = None \<longrightarrow> stopAutoSync s = s"
    by (simp add: stopAutoSync_def)
  have c: "valueListeners (stopAutoSync s) = valueListeners s \<and>
      syncEnabled (stopAutoSync s) = syncEnabled s"
    by (simp add: stopAutoSync_def clearInterval_def split: option.splits)
  have d: "timer_inv s \<longrightarrow>
      liveTimers (stopAutoSync s) = [] \<and> syncInterval (stopAutoSync s) = None"
    by (auto simp: timer_inv_def stopAutoSync_def clearInterval_def split: option.splits)
  have e: "timer_inv s \<longrightarrow>
      liveTimers (startAutoSync date now resp s) = [nextTimer s] \<and>
      syncInterval (startAutoSync date now resp s) = Some (nextTimer s) \<and>
      valueListeners (startAutoSync date now resp s) = valueListeners s"
    using startAutoSync_timers [of s date now resp] by simp
  show ?thesis using a b c d e by simp
qed

theorem stop_is_idempotent_witness:
  "liveTimers (stopAutoSync gist_engine) = [] \<and> syncInterval (stopAutoSync gist_engine) = None \<and>
   stopAutoSync (stopAutoSync gist_engine) = stopAutoSync gist_engine \<and>
   liveTimers (startAutoSync millis_date 30 NotOk gist_engine) = [2] \<and>
   stopAutoSync (fresh []) = fresh []"
proof -
  have none: "syncInterval (fresh []) = None" by (simp add: fresh_def)
  have idle: "stopAutoSync (fresh []) = fresh []"
    using stop_is_idempotent [of "fresh []" millis_date 30 NotOk,
        THEN conjunct2, THEN conjunct1, THEN mp, OF none] .
  have inv: "timer_inv gist_engine" using gist_engine_eval by (simp add: timer_inv_def
      gist_engine_def gist_config_def life_defs transfer_defs)
  have n: "nextTimer gist_engine = 2"
    by (simp add: gist_engine_def gist_config_def life_defs transfer_defs)
  show ?thesis
    using stop_is_idempotent [of gist_engine millis_date 30 NotOk] inv n idle by simp
qed


text \<open>
  The claim as worded fails on the Firebase engine: after \<^verbatim>\<open>stopAutoSync\<close> the
  interval is gone and the listener is still registered.
\<close>

theorem stop_leaves_the_listener:
  "valueListeners firebase_engine = 1 \<and>
   liveTimers (stopAutoSync firebase_engine) = [] \<and>
   valueListeners (stopAutoSync firebase_engine) = 1"
  using firebase_engine_eval by (simp add: stopAutoSync_def clearInterval_def)


end
